theory Spec2Isabelle
  imports Complex_Main "HOL-Library.Multiset"
begin

section \<open>Flocking simulation kernels of \<^verbatim>\<open>src/kernel.cu\<close>\<close>

text \<open>
  The development embeds the CUDA kernels and the host step functions of
  \<^verbatim>\<open>kernel.cu\<close>.  Conventions of the embedding:

  \<^item> \<^verbatim>\<open>float\<close> is idealised as \<^typ>\<open>real\<close>: arithmetic is exact, and the statements
    are about the algorithm and not about rounding.  The speed limit is the exception,
    since it is about exact magnitudes: for it the velocity update is embedded again,
    in binary32 arithmetic.
  \<^item> A device buffer is a list; a device pointer is an address into a store that maps
    addresses to buffers (\<open>vmem\<close> for \<^verbatim>\<open>glm::vec3\<close> buffers, \<open>imem\<close> for
    \<^verbatim>\<open>int\<close> buffers).  Two pointers alias exactly when the addresses are equal.
  \<^item> A kernel is the function one thread runs, from the thread index and the device
    memory to the device memory.  A launch runs the threads one after the other in
    index order.  In the launches studied here no thread reads or writes a slot that
    another thread of the same launch writes (for the range builder: when the keys
    ascend), so the order does not matter; for the brute-force kernel this is proved.
  \<^item> Thread indices and particle counts are \<^typ>\<open>nat\<close>; cell ids, cell coordinates and
    the contents of \<^verbatim>\<open>int\<close> buffers are \<^typ>\<open>int\<close> (the sentinel is \<open>-1\<close>).
    With the grid of the configuration (22 cells a side, 10648 cells) and particles
    inside the scene no integer of the source comes near the 32-bit limits, so the
    integers are not bounded here.
    A read outside a buffer is \<open>xs ! i\<close> beyond the length (an unspecified value, as
    the source's read is undefined); a write with a negative or too large index leaves
    the buffer as it is.  The theorems state the bounds they need.
\<close>

subsection \<open>Vectors (\<^verbatim>\<open>glm::vec3\<close>)\<close>

datatype vec3 = Vec3 (vx: real) (vy: real) (vz: real)

definition vzero :: vec3 where
  "vzero = Vec3 0 0 0"

definition vadd :: "vec3 \<Rightarrow> vec3 \<Rightarrow> vec3" where
  "vadd a b = Vec3 (vx a + vx b) (vy a + vy b) (vz a + vz b)"

definition vsub :: "vec3 \<Rightarrow> vec3 \<Rightarrow> vec3" where
  "vsub a b = Vec3 (vx a - vx b) (vy a - vy b) (vz a - vz b)"

definition vscale :: "vec3 \<Rightarrow> real \<Rightarrow> vec3" where
  "vscale a s = Vec3 (vx a * s) (vy a * s) (vz a * s)"

definition vdiv :: "vec3 \<Rightarrow> real \<Rightarrow> vec3" where
  "vdiv a s = Vec3 (vx a / s) (vy a / s) (vz a / s)"

text \<open>\<^verbatim>\<open>glm::length\<close>: the Euclidean norm.\<close>

definition vlength :: "vec3 \<Rightarrow> real" where
  "vlength a = sqrt (vx a * vx a + vy a * vy a + vz a * vz a)"

subsection \<open>Configuration (the \<^verbatim>\<open>#define\<close>s)\<close>

definition blockSize :: nat where "blockSize = 128"

definition rule1Distance :: real where "rule1Distance = 5"
definition rule2Distance :: real where "rule2Distance = 3"
definition rule3Distance :: real where "rule3Distance = 5"

definition rule1Scale :: real where "rule1Scale = 1 / 100"
definition rule2Scale :: real where "rule2Scale = 1 / 10"
definition rule3Scale :: real where "rule3Scale = 1 / 10"

definition maxSpeed :: real where "maxSpeed = 1"

definition scene_scale :: real where "scene_scale = 100"

subsection \<open>Device memory and kernel launches\<close>

type_synonym addr = nat

record device =
  vmem :: "addr \<Rightarrow> vec3 list"
  imem :: "addr \<Rightarrow> int list"

text \<open>\<^verbatim>\<open>(N + blockSize - 1) / blockSize\<close> blocks of \<^verbatim>\<open>blockSize\<close> threads each.\<close>

definition fullBlocksPerGrid :: "nat \<Rightarrow> nat" where
  "fullBlocksPerGrid N = (N + blockSize - 1) div blockSize"

text \<open>\<^verbatim>\<open>kern<<<blocks, blockSize>>>(...)\<close>: thread \<open>index\<close> ranges over
  \<open>blockIdx.x * blockDim.x + threadIdx.x\<close>.\<close>

definition launch :: "nat \<Rightarrow> (nat \<Rightarrow> device \<Rightarrow> device) \<Rightarrow> device \<Rightarrow> device" where
  "launch blocks kern d = fold kern [0..<blocks * blockSize] d"

text \<open>A write \<^verbatim>\<open>buf[i] = v\<close> through an \<^verbatim>\<open>int\<close> index.\<close>

definition store_at :: "'a list \<Rightarrow> int \<Rightarrow> 'a \<Rightarrow> 'a list" where
  "store_at buf i v = (if 0 \<le> i then buf[nat i := v] else buf)"

subsection \<open>Brute-force velocity update\<close>

definition kernUpdateVelocityRule1 :: "nat \<Rightarrow> nat \<Rightarrow> vec3 list \<Rightarrow> vec3" where
  "kernUpdateVelocityRule1 N iSelf pos =
     (let (rule1, count) =
            fold (\<lambda>i (rule1, count).
                    if i = iSelf then (rule1, count)
                    else if vlength (vsub (pos ! iSelf) (pos ! i)) < rule1Distance
                      then (vadd rule1 (pos ! i), count + (1::int))
                      else (rule1, count))
                 [0..<N] (vzero, 0);
          rule1 = (if count \<noteq> 0 then vdiv rule1 (of_int count) else rule1)
      in vscale (vsub rule1 (pos ! iSelf)) rule1Scale)"

definition kernUpdateVelocityRule2 :: "nat \<Rightarrow> nat \<Rightarrow> vec3 list \<Rightarrow> vec3" where
  "kernUpdateVelocityRule2 N iSelf pos =
     (let rule2 =
            fold (\<lambda>i rule2.
                    if i = iSelf then rule2
                    else if vlength (vsub (pos ! iSelf) (pos ! i)) < rule2Distance
                      then vsub rule2 (vsub (pos ! i) (pos ! iSelf))
                      else rule2)
                 [0..<N] vzero
      in vscale rule2 rule2Scale)"

definition kernUpdateVelocityRule3 :: "nat \<Rightarrow> nat \<Rightarrow> vec3 list \<Rightarrow> vec3 list \<Rightarrow> vec3" where
  "kernUpdateVelocityRule3 N iSelf pos vel =
     (let (rule3, count) =
            fold (\<lambda>i (rule3, count).
                    if i = iSelf then (rule3, count)
                    else if vlength (vsub (pos ! iSelf) (pos ! i)) < rule3Distance
                      then (vadd rule3 (vel ! i), count + (1::int))
                      else (rule3, count))
                 [0..<N] (vzero, 0)
      in vscale rule3 rule3Scale)"

definition computeVelocityChange :: "nat \<Rightarrow> nat \<Rightarrow> vec3 list \<Rightarrow> vec3 list \<Rightarrow> vec3" where
  "computeVelocityChange N iSelf pos vel =
     (let vel_change = vzero;
          vel_change = vadd vel_change (kernUpdateVelocityRule1 N iSelf pos);
          vel_change = vadd vel_change (kernUpdateVelocityRule2 N iSelf pos);
          vel_change = vadd vel_change (kernUpdateVelocityRule3 N iSelf pos vel);
          vel_change = vadd vel_change (vel ! iSelf)
      in if vlength vel_change > maxSpeed
         then vscale vel_change (maxSpeed / vlength vel_change)
         else vel_change)"

definition kernUpdateVelocityBruteForce ::
  "nat \<Rightarrow> addr \<Rightarrow> addr \<Rightarrow> addr \<Rightarrow> nat \<Rightarrow> device \<Rightarrow> device" where
  "kernUpdateVelocityBruteForce N pos vel1 vel2 index d =
     (if index \<ge> N then d
      else d\<lparr>vmem := (vmem d)(vel2 :=
             (vmem d vel2)[index := computeVelocityChange N index (vmem d pos) (vmem d vel1)])\<rparr>)"

subsection \<open>Position integration\<close>

definition kernUpdatePos :: "nat \<Rightarrow> real \<Rightarrow> addr \<Rightarrow> addr \<Rightarrow> nat \<Rightarrow> device \<Rightarrow> device" where
  "kernUpdatePos N dt pos vel index d =
     (if index \<ge> N then d
      else
        let thisPos = vmem d pos ! index;
            thisPos = vadd thisPos (vscale (vmem d vel ! index) dt);
            thisPos = Vec3 (if vx thisPos < - scene_scale then scene_scale else vx thisPos)
                           (vy thisPos) (vz thisPos);
            thisPos = Vec3 (vx thisPos)
                           (if vy thisPos < - scene_scale then scene_scale else vy thisPos)
                           (vz thisPos);
            thisPos = Vec3 (vx thisPos) (vy thisPos)
                           (if vz thisPos < - scene_scale then scene_scale else vz thisPos);
            thisPos = Vec3 (if vx thisPos > scene_scale then - scene_scale else vx thisPos)
                           (vy thisPos) (vz thisPos);
            thisPos = Vec3 (vx thisPos)
                           (if vy thisPos > scene_scale then - scene_scale else vy thisPos)
                           (vz thisPos);
            thisPos = Vec3 (vx thisPos) (vy thisPos)
                           (if vz thisPos > scene_scale then - scene_scale else vz thisPos)
        in d\<lparr>vmem := (vmem d)(pos := (vmem d pos)[index := thisPos])\<rparr>)"

subsection \<open>Uniform grid: geometry\<close>

text \<open>The conversion of a \<^verbatim>\<open>float\<close> to \<^verbatim>\<open>int\<close> truncates toward zero.\<close>

definition float2int :: "real \<Rightarrow> int" where
  "float2int r = (if 0 \<le> r then \<lfloor>r\<rfloor> else \<lceil>r\<rceil>)"

text \<open>\<^verbatim>\<open>std::fmod\<close>: the remainder of the truncated quotient; it has the sign of \<open>a\<close>.\<close>

definition fmod :: "real \<Rightarrow> real \<Rightarrow> real" where
  "fmod a b = a - b * of_int (float2int (a / b))"

text \<open>The grid parameters, as \<^verbatim>\<open>Boids::initSimulation\<close> computes them from the
  configuration (\<^verbatim>\<open>gridMinimum\<close> starts as the zero vector).\<close>

definition gridCellWidth :: real where
  "gridCellWidth = 2 * max (max rule1Distance rule2Distance) rule3Distance"

definition halfSideCount :: int where
  "halfSideCount = float2int (scene_scale / gridCellWidth) + 1"

definition gridSideCount :: int where
  "gridSideCount = 2 * halfSideCount"

definition gridCellCount :: int where
  "gridCellCount = gridSideCount * gridSideCount * gridSideCount"

definition gridInverseCellWidth :: real where
  "gridInverseCellWidth = 1 / gridCellWidth"

definition gridMinimum :: vec3 where
  "gridMinimum =
     (let halfGridWidth = gridCellWidth * of_int halfSideCount
      in Vec3 (0 - halfGridWidth) (0 - halfGridWidth) (0 - halfGridWidth))"

definition gridIndex3Dto1D :: "int \<Rightarrow> int \<Rightarrow> int \<Rightarrow> int \<Rightarrow> int" where
  "gridIndex3Dto1D x y z gridResolution =
     x + y * gridResolution + z * gridResolution * gridResolution"

subsection \<open>Uniform grid: labelling, reset and cell ranges\<close>

text \<open>\<^verbatim>\<open>COHERENT_GRID\<close> is defined as 1, so the first branch of the \<^verbatim>\<open>#if\<close> is the
  compiled one: \<^verbatim>\<open>indices[index] = index; boid_index = index\<close>.\<close>

definition kernComputeIndices ::
  "nat \<Rightarrow> int \<Rightarrow> vec3 \<Rightarrow> real \<Rightarrow> addr \<Rightarrow> addr \<Rightarrow> addr \<Rightarrow> nat \<Rightarrow> device \<Rightarrow> device" where
  "kernComputeIndices N gridResolution gridMin inverseCellWidth pos indices gridIndices index d =
     (if index < N then
        let d = d\<lparr>imem := (imem d)(indices := (imem d indices)[index := int index])\<rparr>;
            boid_index = index;
            x = float2int ((vx (vmem d pos ! boid_index) - vx gridMin) * inverseCellWidth);
            y = float2int ((vy (vmem d pos ! boid_index) - vy gridMin) * inverseCellWidth);
            z = float2int ((vz (vmem d pos ! boid_index) - vz gridMin) * inverseCellWidth);
            cell_index = gridIndex3Dto1D x y z gridResolution
        in d\<lparr>imem := (imem d)(gridIndices := (imem d gridIndices)[index := cell_index])\<rparr>
      else d)"

definition kernResetIntBuffer :: "nat \<Rightarrow> addr \<Rightarrow> int \<Rightarrow> nat \<Rightarrow> device \<Rightarrow> device" where
  "kernResetIntBuffer N intBuffer v index d =
     (if index < N
      then d\<lparr>imem := (imem d)(intBuffer := (imem d intBuffer)[index := v])\<rparr>
      else d)"

definition kernResetIndexBuffer :: "nat \<Rightarrow> addr \<Rightarrow> nat \<Rightarrow> device \<Rightarrow> device" where
  "kernResetIndexBuffer N indexBuffer index d =
     (if index < N
      then d\<lparr>imem := (imem d)(indexBuffer := (imem d indexBuffer)[index := int index])\<rparr>
      else d)"

definition kernIdentifyCellStartEnd ::
  "nat \<Rightarrow> addr \<Rightarrow> addr \<Rightarrow> addr \<Rightarrow> nat \<Rightarrow> device \<Rightarrow> device" where
  "kernIdentifyCellStartEnd N particleGridIndices gridCellStartIndices gridCellEndIndices index d =
     (if index < N then
        let d = (if index = 0 \<or>
                    imem d particleGridIndices ! index \<noteq> imem d particleGridIndices ! (index - 1)
                 then d\<lparr>imem := (imem d)(gridCellStartIndices :=
                        store_at (imem d gridCellStartIndices)
                                 (imem d particleGridIndices ! index) (int index))\<rparr>
                 else d);
            d = (if index = N - 1 \<or>
                    imem d particleGridIndices ! index \<noteq> imem d particleGridIndices ! (index + 1)
                 then d\<lparr>imem := (imem d)(gridCellEndIndices :=
                        store_at (imem d gridCellEndIndices)
                                 (imem d particleGridIndices ! index) (int index + 1))\<rparr>
                 else d)
        in d
      else d)"

subsection \<open>Uniform grid: neighbour search\<close>

text \<open>
  The two grid kernels share three pieces of text, each written once here: the list
  \<^verbatim>\<open>neighbor_cell_vec\<close> of candidate cells (the in-bounds cells of the 2x2x2 block at
  \<open>(base_x, base_y, base_z)\<close>, padded to eight entries with \<open>-1\<close>), the body of the inner
  loop that applies the three rules to one neighbour, and the final combination with the
  speed limit.  The array \<^verbatim>\<open>neighbor_cell\<close> of the scattered kernel is never read and is
  left out, as is the unused local \<^verbatim>\<open>gridCellCount\<close>.
\<close>

definition neighbor_cell_vec :: "int \<Rightarrow> int \<Rightarrow> int \<Rightarrow> int \<Rightarrow> int list" where
  "neighbor_cell_vec base_x base_y base_z gridResolution =
     (let cells =
            concat (map (\<lambda>i. concat (map (\<lambda>j. concat (map (\<lambda>k.
              let neighbor_z = base_z + i;
                  neighbor_y = base_y + j;
                  neighbor_x = base_x + k
              in if neighbor_x < 0 \<or> neighbor_x \<ge> gridResolution \<or>
                    neighbor_y < 0 \<or> neighbor_y \<ge> gridResolution \<or>
                    neighbor_z < 0 \<or> neighbor_z \<ge> gridResolution
                 then []
                 else [gridIndex3Dto1D neighbor_x neighbor_y neighbor_z gridResolution])
              [0, 1])) [0, 1])) [0, 1])
      in cells @ replicate (8 - length cells) (- 1))"

type_synonym rules = "vec3 \<times> int \<times> vec3 \<times> vec3 \<times> int"

definition applyRules :: "vec3 list \<Rightarrow> vec3 list \<Rightarrow> int \<Rightarrow> int \<Rightarrow> rules \<Rightarrow> rules" where
  "applyRules pos vel1 boid_index neighbor_index =
     (\<lambda>(rule1, rule1_count, rule2, rule3, rule3_count).
        if neighbor_index = boid_index then (rule1, rule1_count, rule2, rule3, rule3_count)
        else
          let len = vlength (vsub (pos ! nat boid_index) (pos ! nat neighbor_index));
              (rule1, rule1_count) =
                 (if len < rule1Distance
                  then (vadd rule1 (pos ! nat neighbor_index), rule1_count + 1)
                  else (rule1, rule1_count));
              rule2 =
                 (if len < rule2Distance
                  then vsub rule2 (vsub (pos ! nat neighbor_index) (pos ! nat boid_index))
                  else rule2);
              (rule3, rule3_count) =
                 (if len < rule3Distance
                  then (vadd rule3 (vel1 ! nat neighbor_index), rule3_count + 1)
                  else (rule3, rule3_count))
          in (rule1, rule1_count, rule2, rule3, rule3_count))"

definition combineRules :: "rules \<Rightarrow> vec3 \<Rightarrow> vec3 \<Rightarrow> vec3" where
  "combineRules acc selfPos selfVel =
     (case acc of (rule1, rule1_count, rule2, rule3, rule3_count) \<Rightarrow>
        let vel_change = vzero;
            rule1 = (if rule1_count \<noteq> 0 then vdiv rule1 (of_int rule1_count) else rule1);
            rule1 = vscale (vsub rule1 selfPos) rule1Scale;
            rule2 = vscale rule2 rule2Scale;
            rule3 = vscale rule3 rule3Scale;
            vel_change = vadd vel_change rule1;
            vel_change = vadd vel_change rule2;
            vel_change = vadd vel_change rule3;
            vel_change = vadd vel_change selfVel
        in if vlength vel_change > maxSpeed
           then vscale vel_change (maxSpeed / vlength vel_change)
           else vel_change)"

definition kernUpdateVelNeighborSearchScattered ::
  "nat \<Rightarrow> int \<Rightarrow> vec3 \<Rightarrow> real \<Rightarrow> real \<Rightarrow> addr \<Rightarrow> addr \<Rightarrow> addr \<Rightarrow> addr \<Rightarrow> addr \<Rightarrow> addr
     \<Rightarrow> nat \<Rightarrow> device \<Rightarrow> device" where
  "kernUpdateVelNeighborSearchScattered N gridResolution gridMin inverseCellWidth cellWidth
       gridCellStartIndices gridCellEndIndices particleArrayIndices pos vel1 vel2 index d =
     (if index < N then
        let boid_index = imem d particleArrayIndices ! index;
            selfPos = vmem d pos ! nat boid_index;
            x = float2int ((vx selfPos - vx gridMin) * inverseCellWidth);
            y = float2int ((vy selfPos - vy gridMin) * inverseCellWidth);
            z = float2int ((vz selfPos - vz gridMin) * inverseCellWidth);
            cell_x = (fmod (vx selfPos - vx gridMin) cellWidth > cellWidth / 2);
            cell_y = (fmod (vy selfPos - vy gridMin) cellWidth > cellWidth / 2);
            cell_z = (fmod (vz selfPos - vz gridMin) cellWidth > cellWidth / 2);
            base_x = (if cell_x then x else x - 1);
            base_y = (if cell_y then y else y - 1);
            base_z = (if cell_z then z else z - 1);
            acc = fold (\<lambda>neighbor_cell_index acc.
                     if neighbor_cell_index < 0 then acc
                     else
                       let cellStart = imem d gridCellStartIndices ! nat neighbor_cell_index;
                           cellEnd = imem d gridCellEndIndices ! nat neighbor_cell_index
                       in if cellEnd > cellStart \<and> cellStart > 0
                          then fold (\<lambda>j. applyRules (vmem d pos) (vmem d vel1) boid_index
                                            (imem d particleArrayIndices ! j))
                                    [nat cellStart..<nat cellEnd] acc
                          else acc)
                   (neighbor_cell_vec base_x base_y base_z gridResolution)
                   (vzero, 0, vzero, vzero, 0);
            vel_change = combineRules acc selfPos (vmem d vel1 ! nat boid_index)
        in d\<lparr>vmem := (vmem d)(vel2 := store_at (vmem d vel2) boid_index vel_change)\<rparr>
      else d)"

definition kernUpdateVelNeighborSearchCoherent ::
  "nat \<Rightarrow> int \<Rightarrow> vec3 \<Rightarrow> real \<Rightarrow> real \<Rightarrow> addr \<Rightarrow> addr \<Rightarrow> addr \<Rightarrow> addr \<Rightarrow> addr
     \<Rightarrow> nat \<Rightarrow> device \<Rightarrow> device" where
  "kernUpdateVelNeighborSearchCoherent N gridResolution gridMin inverseCellWidth cellWidth
       gridCellStartIndices gridCellEndIndices pos vel1 vel2 boid_index d =
     (if boid_index < N then
        let selfPos = vmem d pos ! boid_index;
            x = float2int ((vx selfPos - vx gridMin) * inverseCellWidth);
            y = float2int ((vy selfPos - vy gridMin) * inverseCellWidth);
            z = float2int ((vz selfPos - vz gridMin) * inverseCellWidth);
            cell_x = (fmod (vx selfPos - vx gridMin) cellWidth > cellWidth / 2);
            cell_y = (fmod (vy selfPos - vy gridMin) cellWidth > cellWidth / 2);
            cell_z = (fmod (vz selfPos - vz gridMin) cellWidth > cellWidth / 2);
            base_x = (if cell_x then x else x - 1);
            base_y = (if cell_y then y else y - 1);
            base_z = (if cell_z then z else z - 1);
            acc = fold (\<lambda>neighbor_cell_index acc.
                     if neighbor_cell_index < 0 then acc
                     else
                       let cellStart = imem d gridCellStartIndices ! nat neighbor_cell_index;
                           cellEnd = imem d gridCellEndIndices ! nat neighbor_cell_index
                       in if cellEnd > cellStart \<and> cellStart > 0
                          then fold (\<lambda>j. applyRules (vmem d pos) (vmem d vel1) (int boid_index)
                                            (int j))
                                    [nat cellStart..<nat cellEnd] acc
                          else acc)
                   (neighbor_cell_vec base_x base_y base_z gridResolution)
                   (vzero, 0, vzero, vzero, 0);
            vel_change = combineRules acc selfPos (vmem d vel1 ! boid_index)
        in d\<lparr>vmem := (vmem d)(vel2 := (vmem d vel2)[boid_index := vel_change])\<rparr>
      else d)"

subsection \<open>Binary32 arithmetic\<close>

text \<open>
  The speed limit is a statement about exact magnitudes, and there the rounding of the
  code matters.  For it the velocity update is embedded a second time, with the arithmetic
  of the code: every \<^verbatim>\<open>float\<close> operation of the source (\<^verbatim>\<open>+\<close>, \<^verbatim>\<open>-\<close>, \<^verbatim>\<open>*\<close>, \<^verbatim>\<open>/\<close>,
  the square root in \<^verbatim>\<open>glm::length\<close>, the conversion of an \<^verbatim>\<open>int\<close>) yields the exact result
  rounded to the nearest binary32 number, ties to the even significand, as IEEE 754
  prescribes.  A binary32 number is \<open>m * 2^(e - 23)\<close> with an integer \<open>m\<close> of magnitude
  below \<open>2^24\<close> and an exponent \<open>e\<close> from \<open>-126\<close> to \<open>127\<close>; below \<open>2^-126\<close> the numbers
  are the subnormal ones, \<open>2^-149\<close> apart.  Results of magnitude \<open>2^128\<close> and more (the
  infinities) and NaN are not represented: \<open>round32\<close> is binary32 rounding below that
  magnitude, and the theorem on the speed limit bounds the vector to be limited so that
  no operation of the limit comes near it.  Every operation of the source is one
  operation here; the fusion of a multiplication and an addition into one rounding, which
  a compiler may choose, is not modelled.
\<close>

text \<open>The number of binary digits of \<open>n\<close>.\<close>

fun bits :: "nat \<Rightarrow> nat" where
  "bits n = (if n = 0 then 0 else Suc (bits (n div 2)))"

declare bits.simps [simp del]

text \<open>The nearest integer, ties to the even one.\<close>

definition rne :: "real \<Rightarrow> int" where
  "rne x = (let f = \<lfloor>x\<rfloor> in
            if x - of_int f < 1 / 2 then f
            else if 1 / 2 < x - of_int f then f + 1
            else if even f then f else f + 1)"

text \<open>The exponent \<open>e\<close> with \<open>2^e \<le> \<bar>x\<bar> < 2^(e + 1)\<close>, and \<open>-126\<close> for a smaller \<open>x\<close>:
  the integer part of \<open>\<bar>x\<bar> * 2^126\<close> has \<open>e + 127\<close> binary digits.  The binary32 numbers
  around \<open>x\<close> are \<open>ulp32 x\<close> apart.\<close>

definition expo32 :: "real \<Rightarrow> int" where
  "expo32 x = max (int (bits (nat \<lfloor>\<bar>x\<bar> * 2 ^ 126\<rfloor>)) - 1) 0 - 126"

definition ulp32 :: "real \<Rightarrow> real" where
  "ulp32 x = 2 powi (expo32 x - 23)"

definition round32 :: "real \<Rightarrow> real" where
  "round32 x = of_int (rne (x / ulp32 x)) * ulp32 x"







subsection \<open>The velocity update in binary32\<close>







subsection \<open>The speed limit up to rounding\<close>





subsection \<open>The sorter (\<^verbatim>\<open>thrust::sort_by_key\<close>)\<close>

text \<open>
  \<^verbatim>\<open>thrust::sort_by_key\<close> belongs to the Thrust library and not to this repository.  It
  is taken as a parameter of the step functions: a function from the key sequence and the
  payload sequence to the two sequences after sorting, with one parameter for each call
  (the payloads are \<^verbatim>\<open>int\<close>s in one call and \<^verbatim>\<open>glm::vec3\<close>s in the two others).
  \<open>sorter_contract\<close> is what every sort by key does: the keys come out ascending and the
  (key, payload) pairs are the same multiset.
\<close>

type_synonym 'a sorter = "int list \<Rightarrow> 'a list \<Rightarrow> int list \<times> 'a list"


text \<open>
  This much is taken from the library: the routine places the pairs by their keys
  alone.  It compares keys and never looks at a payload, and it is a function of its
  input, so that two calls on equal key sequences place their pairs alike.  The routine
  then moves keys and payload by a permutation \<open>p keys\<close> of the sort positions, and
  \<open>sort_via p\<close> is the routine at any payload type, for the rule \<open>p\<close> by which it places
  the pairs.  Nothing is asked of the places of equal keys: the source calls the sort
  unstable, and \<open>p\<close> may order equal keys in any way.
\<close>

definition sort_via :: "(int list \<Rightarrow> nat list) \<Rightarrow> 'a sorter" where
  "sort_via p keys vals = (map (\<lambda>i. keys ! i) (p keys), map (\<lambda>i. vals ! i) (p keys))"

text \<open>One such rule: the stable one, which keeps equal keys in their input order.\<close>

definition stable_perm :: "int list \<Rightarrow> nat list" where
  "stable_perm keys = map snd (sort_key fst (zip keys [0..<length keys]))"

text \<open>The call \<^verbatim>\<open>thrust::sort_by_key(keys, keys + n, vals)\<close> on device memory, for an
  \<^verbatim>\<open>int\<close> payload and for a \<^verbatim>\<open>glm::vec3\<close> payload.\<close>

definition sort_by_key_int :: "int sorter \<Rightarrow> addr \<Rightarrow> nat \<Rightarrow> addr \<Rightarrow> device \<Rightarrow> device" where
  "sort_by_key_int srt keys n vals d =
     (case srt (take n (imem d keys)) (take n (imem d vals)) of (ks, vs) \<Rightarrow>
        let d = d\<lparr>imem := (imem d)(keys := ks @ drop n (imem d keys))\<rparr>
        in d\<lparr>imem := (imem d)(vals := vs @ drop n (imem d vals))\<rparr>)"

definition sort_by_key_vec :: "vec3 sorter \<Rightarrow> addr \<Rightarrow> nat \<Rightarrow> addr \<Rightarrow> device \<Rightarrow> device" where
  "sort_by_key_vec srt keys n vals d =
     (case srt (take n (imem d keys)) (take n (vmem d vals)) of (ks, vs) \<Rightarrow>
        d\<lparr>imem := (imem d)(keys := ks @ drop n (imem d keys)),
          vmem := (vmem d)(vals := vs @ drop n (vmem d vals))\<rparr>)"

text \<open>\<^verbatim>\<open>cudaMemcpy(dst, src, n * sizeof(int), cudaMemcpyDeviceToDevice)\<close>.\<close>

definition cudaMemcpy_int :: "addr \<Rightarrow> addr \<Rightarrow> nat \<Rightarrow> device \<Rightarrow> device" where
  "cudaMemcpy_int dst src n d =
     d\<lparr>imem := (imem d)(dst := take n (imem d src) @ drop n (imem d dst))\<rparr>"

subsection \<open>Host state and the step functions\<close>

text \<open>The globals of the file: the particle count, the device pointers, and the device
  memory they point into.\<close>

record boids =
  numObjects :: nat
  mem :: device
  dev_pos :: addr
  dev_vel1 :: addr
  dev_vel2 :: addr
  dev_particleArrayIndices :: addr
  dev_particleGridIndices :: addr
  dev_gridCellStartIndices :: addr
  dev_gridCellEndIndices :: addr
  dev_particleGridIndicesPosSort :: addr
  dev_particleGridIndicesVelSort :: addr

definition stepSimulationNaive :: "real \<Rightarrow> boids \<Rightarrow> boids" where
  "stepSimulationNaive dt s =
     (let blocks = fullBlocksPerGrid (numObjects s);
          d = launch blocks (kernUpdateVelocityBruteForce (numObjects s)
                (dev_pos s) (dev_vel1 s) (dev_vel2 s)) (mem s);
          d = launch blocks (kernUpdatePos (numObjects s) dt (dev_pos s) (dev_vel2 s)) d
      in s\<lparr>mem := d, dev_vel1 := dev_vel2 s, dev_vel2 := dev_vel1 s\<rparr>)"

text \<open>The grid steps up to and including the cell ranges; the velocity kernel, the
  integration and the swap follow in the step function itself.\<close>

definition scatteredGridRanges :: "int sorter \<Rightarrow> boids \<Rightarrow> device" where
  "scatteredGridRanges srt s =
     (let blocks = fullBlocksPerGrid (numObjects s);
          cellBlocks = fullBlocksPerGrid (nat gridCellCount);
          d = launch cellBlocks
                (kernResetIntBuffer (nat gridCellCount) (dev_gridCellStartIndices s) (- 1)) (mem s);
          d = launch cellBlocks
                (kernResetIntBuffer (nat gridCellCount) (dev_gridCellEndIndices s) (- 1)) d;
          d = launch blocks (kernComputeIndices (numObjects s) gridSideCount gridMinimum
                gridInverseCellWidth (dev_pos s) (dev_particleArrayIndices s)
                (dev_particleGridIndices s)) d;
          d = sort_by_key_int srt (dev_particleGridIndices s) (numObjects s)
                (dev_particleArrayIndices s) d
      in launch blocks (kernIdentifyCellStartEnd (numObjects s) (dev_particleGridIndices s)
           (dev_gridCellStartIndices s) (dev_gridCellEndIndices s)) d)"

definition stepSimulationScatteredGrid :: "int sorter \<Rightarrow> real \<Rightarrow> boids \<Rightarrow> boids" where
  "stepSimulationScatteredGrid srt dt s =
     (let blocks = fullBlocksPerGrid (numObjects s);
          d = scatteredGridRanges srt s;
          d = launch blocks (kernUpdateVelNeighborSearchScattered (numObjects s) gridSideCount
                gridMinimum gridInverseCellWidth gridCellWidth
                (dev_gridCellStartIndices s) (dev_gridCellEndIndices s)
                (dev_particleArrayIndices s) (dev_pos s) (dev_vel1 s) (dev_vel2 s)) d;
          d = launch blocks (kernUpdatePos (numObjects s) dt (dev_pos s) (dev_vel2 s)) d
      in s\<lparr>mem := d, dev_vel1 := dev_vel2 s, dev_vel2 := dev_vel1 s\<rparr>)"

text \<open>The coherent step sorts three times, each time by a copy of the unsorted cell
  ids: the array indices, then the positions, then the velocities.\<close>

definition coherentGridSorted :: "int sorter \<Rightarrow> vec3 sorter \<Rightarrow> vec3 sorter \<Rightarrow> boids \<Rightarrow> device" where
  "coherentGridSorted srtIdx srtPos srtVel s =
     (let blocks = fullBlocksPerGrid (numObjects s);
          cellBlocks = fullBlocksPerGrid (nat gridCellCount);
          d = launch cellBlocks
                (kernResetIntBuffer (nat gridCellCount) (dev_gridCellStartIndices s) (- 1)) (mem s);
          d = launch cellBlocks
                (kernResetIntBuffer (nat gridCellCount) (dev_gridCellEndIndices s) (- 1)) d;
          d = launch blocks (kernComputeIndices (numObjects s) gridSideCount gridMinimum
                gridInverseCellWidth (dev_pos s) (dev_particleArrayIndices s)
                (dev_particleGridIndices s)) d;
          d = cudaMemcpy_int (dev_particleGridIndicesPosSort s) (dev_particleGridIndices s)
                (numObjects s) d;
          d = cudaMemcpy_int (dev_particleGridIndicesVelSort s) (dev_particleGridIndices s)
                (numObjects s) d;
          d = sort_by_key_int srtIdx (dev_particleGridIndices s) (numObjects s)
                (dev_particleArrayIndices s) d;
          d = sort_by_key_vec srtPos (dev_particleGridIndicesPosSort s) (numObjects s)
                (dev_pos s) d
      in sort_by_key_vec srtVel (dev_particleGridIndicesVelSort s) (numObjects s)
           (dev_vel1 s) d)"

definition stepSimulationCoherentGrid ::
  "int sorter \<Rightarrow> vec3 sorter \<Rightarrow> vec3 sorter \<Rightarrow> real \<Rightarrow> boids \<Rightarrow> boids" where
  "stepSimulationCoherentGrid srtIdx srtPos srtVel dt s =
     (let blocks = fullBlocksPerGrid (numObjects s);
          d = coherentGridSorted srtIdx srtPos srtVel s;
          d = launch blocks (kernIdentifyCellStartEnd (numObjects s) (dev_particleGridIndices s)
                (dev_gridCellStartIndices s) (dev_gridCellEndIndices s)) d;
          d = launch blocks (kernUpdateVelNeighborSearchCoherent (numObjects s) gridSideCount
                gridMinimum gridInverseCellWidth gridCellWidth
                (dev_gridCellStartIndices s) (dev_gridCellEndIndices s)
                (dev_pos s) (dev_vel1 s) (dev_vel2 s)) d;
          d = launch blocks (kernUpdatePos (numObjects s) dt (dev_pos s) (dev_vel2 s)) d
      in s\<lparr>mem := d, dev_vel1 := dev_vel2 s, dev_vel2 := dev_vel1 s\<rparr>)"


subsection \<open>A scene of two particles\<close>

text \<open>Two particles one unit apart, at \<open>(0, 0, 0)\<close> and \<open>(1, 0, 0)\<close>, at rest, with the
  grid of the configuration; the buffers hold \<open>numObjects\<close> entries and the two range
  buffers \<open>gridCellCount\<close> entries, as \<^verbatim>\<open>Boids::initSimulation\<close> allocates them.\<close>

definition two_boids :: boids where
  "two_boids =
     \<lparr>numObjects = 2,
      mem = \<lparr>vmem = (\<lambda>a. [Vec3 0 0 0, Vec3 0 0 0])(10 := [Vec3 0 0 0, Vec3 1 0 0]),
             imem = (\<lambda>a. [0, 0])(22 := replicate (nat gridCellCount) 0,
                                    23 := replicate (nat gridCellCount) 0)\<rparr>,
      dev_pos = 10, dev_vel1 = 11, dev_vel2 = 12,
      dev_particleArrayIndices = 20, dev_particleGridIndices = 21,
      dev_gridCellStartIndices = 22, dev_gridCellEndIndices = 23,
      dev_particleGridIndicesPosSort = 24, dev_particleGridIndicesVelSort = 25\<rparr>"

text \<open>The same two particles with different velocities.\<close>

definition two_boids_moving :: boids where
  "two_boids_moving =
     two_boids\<lparr>mem := (mem two_boids)\<lparr>vmem :=
        (vmem (mem two_boids))(11 := [Vec3 1 0 0, Vec3 0 1 0])\<rparr>\<rparr>"

subsection \<open>Alignment of the reordered buffers\<close>



section \<open>Properties\<close>

subsection \<open>Launches\<close>

lemmas vec_defs = vzero_def vadd_def vsub_def vscale_def vdiv_def

lemma blocks_cover: "N \<le> fullBlocksPerGrid N * blockSize"
  unfolding fullBlocksPerGrid_def blockSize_def by arith

subsection \<open>The integrator\<close>

lemma kernUpdatePos_frame:
  "imem (kernUpdatePos N dt pos vel index d) = imem d"
  "a \<noteq> pos \<Longrightarrow> vmem (kernUpdatePos N dt pos vel index d) a = vmem d a"
  "length (vmem (kernUpdatePos N dt pos vel index d) a) = length (vmem d a)"
  "j \<noteq> index \<Longrightarrow> vmem (kernUpdatePos N dt pos vel index d) a ! j = vmem d a ! j"
  by (simp_all add: kernUpdatePos_def Let_def)

text \<open>What a thread writes depends on its own slot of the two buffers only.\<close>

lemma kernUpdatePos_local:
  assumes "vmem e pos ! index = vmem d pos ! index" "vmem e vel ! index = vmem d vel ! index"
    "length (vmem e pos) = length (vmem d pos)"
  shows "vmem (kernUpdatePos N dt pos vel index e) pos ! index
       = vmem (kernUpdatePos N dt pos vel index d) pos ! index"
proof (cases "N \<le> index")
  case True
  then show ?thesis using assms by (simp add: kernUpdatePos_def)
next
  case False
  then show ?thesis using assms
    by (cases "index < length (vmem d pos)")
       (simp_all add: kernUpdatePos_def Let_def list_update_beyond split del: if_split)
qed

lemma fold_kernUpdatePos:
  assumes "pos \<noteq> vel"
  shows "imem (fold (kernUpdatePos N dt pos vel) [0..<n] d) = imem d \<and>
     (\<forall>a. a \<noteq> pos \<longrightarrow> vmem (fold (kernUpdatePos N dt pos vel) [0..<n] d) a = vmem d a) \<and>
     length (vmem (fold (kernUpdatePos N dt pos vel) [0..<n] d) pos) = length (vmem d pos) \<and>
     (\<forall>j. vmem (fold (kernUpdatePos N dt pos vel) [0..<n] d) pos ! j =
          (if j < n then vmem (kernUpdatePos N dt pos vel j d) pos ! j else vmem d pos ! j))"
proof (induction n)
  case 0
  show ?case by simp
next
  case (Suc n)
  let ?e = "fold (kernUpdatePos N dt pos vel) [0..<n] d"
  have step: "fold (kernUpdatePos N dt pos vel) [0..<Suc n] d = kernUpdatePos N dt pos vel n ?e"
    by simp
  have vel: "vmem ?e vel = vmem d vel" using Suc assms by metis
  have here: "vmem (kernUpdatePos N dt pos vel n ?e) pos ! n
            = vmem (kernUpdatePos N dt pos vel n d) pos ! n"
    by (rule kernUpdatePos_local) (use Suc vel in auto)
  show ?case
    unfolding step using Suc here
    by (auto simp: kernUpdatePos_frame less_Suc_eq)
qed

lemma launch_kernUpdatePos:
  assumes "pos \<noteq> vel"
  shows "imem (launch (fullBlocksPerGrid N) (kernUpdatePos N dt pos vel) d) = imem d"
    and "a \<noteq> pos \<Longrightarrow> vmem (launch (fullBlocksPerGrid N) (kernUpdatePos N dt pos vel) d) a = vmem d a"
    and "length (vmem (launch (fullBlocksPerGrid N) (kernUpdatePos N dt pos vel) d) pos)
           = length (vmem d pos)"
    and "index < N \<Longrightarrow> vmem (launch (fullBlocksPerGrid N) (kernUpdatePos N dt pos vel) d) pos ! index
           = vmem (kernUpdatePos N dt pos vel index d) pos ! index"
  using fold_kernUpdatePos [OF assms, of N dt "fullBlocksPerGrid N * blockSize" d]
    blocks_cover [of N]
  by (auto simp: launch_def)

lemma kernUpdatePos_nth:
  assumes "index < N" "index < length (vmem d pos)"
  shows "vmem (kernUpdatePos N dt pos vel index d) pos ! index =
     (let c = vadd (vmem d pos ! index) (vscale (vmem d vel ! index) dt);
          w = (\<lambda>r. if r < - scene_scale then scene_scale
                    else if r > scene_scale then - scene_scale else r)
      in Vec3 (w (vx c)) (w (vy c)) (w (vz c)))"
  using assms by (simp add: kernUpdatePos_def Let_def scene_scale_def)

text \<open>
  C4.  Let \<open>moved\<close> be the position of particle \<open>index\<close> plus its next velocity times
  \<open>dt\<close>, and \<open>after\<close> the position the integrator launch leaves in the buffer.  On every
  axis, a coordinate of \<open>moved\<close> below \<open>-scene_scale\<close> is stored as exactly \<open>scene_scale\<close>,
  and one above \<open>scene_scale\<close> as exactly \<open>-scene_scale\<close> (a reset, no modulo).  With
  \<open>scene_scale = 100\<close>, a particle at \<open>x = 100.5\<close> whose step moves it further in the
  positive direction ends at \<open>x = -100\<close>.
\<close>

theorem kernUpdatePos_hard_reset:
  fixes N :: nat and dt :: real and pos vel :: addr and d :: device and index :: nat
  defines "moved \<equiv> vadd (vmem d pos ! index) (vscale (vmem d vel ! index) dt)"
    and "after \<equiv> vmem (launch (fullBlocksPerGrid N) (kernUpdatePos N dt pos vel) d) pos ! index"
  assumes "pos \<noteq> vel" and "index < N" and "N \<le> length (vmem d pos)"
  shows "(vx moved < - scene_scale \<longrightarrow> vx after = scene_scale) \<and>
         (vx moved > scene_scale \<longrightarrow> vx after = - scene_scale) \<and>
         (vy moved < - scene_scale \<longrightarrow> vy after = scene_scale) \<and>
         (vy moved > scene_scale \<longrightarrow> vy after = - scene_scale) \<and>
         (vz moved < - scene_scale \<longrightarrow> vz after = scene_scale) \<and>
         (vz moved > scene_scale \<longrightarrow> vz after = - scene_scale) \<and>
         scene_scale = 100 \<and>
         (vx (vmem d pos ! index) = 100.5 \<and> vx (vmem d vel ! index) * dt > 0
            \<longrightarrow> vx after = - 100)"
proof -
  have a: "after = vmem (kernUpdatePos N dt pos vel index d) pos ! index"
    unfolding after_def using assms(3,4) by (simp add: launch_kernUpdatePos)
  have i: "index < length (vmem d pos)" using assms(4,5) by simp
  show ?thesis
    unfolding a kernUpdatePos_nth [OF assms(4) i] moved_def
    by (simp add: Let_def scene_scale_def vec_defs)
qed

theorem kernUpdatePos_hard_reset_witness:
  "vmem (launch (fullBlocksPerGrid 1) (kernUpdatePos 1 1 0 1)
         \<lparr>vmem = (\<lambda>a. [Vec3 100.5 (- 100) 0])(1 := [Vec3 1 (- 1) 0]), imem = (\<lambda>a. [])\<rparr>) 0 ! 0
     = Vec3 (- 100) 100 0"
  using kernUpdatePos_hard_reset [where N = 1 and dt = 1 and pos = 0 and vel = 1 and index = 0
     and d = "\<lparr>vmem = (\<lambda>a. [Vec3 100.5 (- 100) 0])(1 := [Vec3 1 (- 1) 0]), imem = (\<lambda>a. [])\<rparr>"]
  by (simp add: vec_defs launch_kernUpdatePos kernUpdatePos_nth Let_def scene_scale_def)

text \<open>
  C10.  Whatever the position before, the velocity and the time step, every coordinate
  the integrator launch stores lies in the closed interval from \<open>-scene_scale\<close> to
  \<open>scene_scale\<close> (so in particular for a particle that was inside before); and a
  coordinate of \<open>moved\<close> that is exactly \<open>-scene_scale\<close> or exactly \<open>scene_scale\<close> is stored
  unchanged, both tests of the wrap being strict.
\<close>

theorem kernUpdatePos_stays_in_scene:
  fixes N :: nat and dt :: real and pos vel :: addr and d :: device and index :: nat
  defines "moved \<equiv> vadd (vmem d pos ! index) (vscale (vmem d vel ! index) dt)"
    and "after \<equiv> vmem (launch (fullBlocksPerGrid N) (kernUpdatePos N dt pos vel) d) pos ! index"
  assumes "pos \<noteq> vel" and "index < N" and "N \<le> length (vmem d pos)"
  shows "- scene_scale \<le> vx after \<and> vx after \<le> scene_scale \<and>
         - scene_scale \<le> vy after \<and> vy after \<le> scene_scale \<and>
         - scene_scale \<le> vz after \<and> vz after \<le> scene_scale \<and>
         (vx moved = - scene_scale \<or> vx moved = scene_scale \<longrightarrow> vx after = vx moved) \<and>
         (vy moved = - scene_scale \<or> vy moved = scene_scale \<longrightarrow> vy after = vy moved) \<and>
         (vz moved = - scene_scale \<or> vz moved = scene_scale \<longrightarrow> vz after = vz moved)"
proof -
  have a: "after = vmem (kernUpdatePos N dt pos vel index d) pos ! index"
    unfolding after_def using assms(3,4) by (simp add: launch_kernUpdatePos)
  have i: "index < length (vmem d pos)" using assms(4,5) by simp
  show ?thesis
    unfolding a kernUpdatePos_nth [OF assms(4) i] moved_def
    by (simp add: Let_def scene_scale_def vec_defs)
qed

theorem kernUpdatePos_stays_in_scene_witness:
  "vmem (launch (fullBlocksPerGrid 1) (kernUpdatePos 1 1 0 1)
         \<lparr>vmem = (\<lambda>a. [Vec3 99 (- 99) 250])(1 := [Vec3 1 (- 1) 7]), imem = (\<lambda>a. [])\<rparr>) 0 ! 0
     = Vec3 100 (- 100) (- 100)"
  using kernUpdatePos_stays_in_scene [where N = 1 and dt = 1 and pos = 0 and vel = 1 and index = 0
     and d = "\<lparr>vmem = (\<lambda>a. [Vec3 99 (- 99) 250])(1 := [Vec3 1 (- 1) 7]), imem = (\<lambda>a. [])\<rparr>"]
  by (simp add: vec_defs launch_kernUpdatePos kernUpdatePos_nth Let_def scene_scale_def)

subsection \<open>The brute-force velocity kernel\<close>



lemma kernUpdateVelocityBruteForce_frame:
  "imem (kernUpdateVelocityBruteForce N pos vel1 vel2 index d) = imem d"
  "a \<noteq> vel2 \<Longrightarrow> vmem (kernUpdateVelocityBruteForce N pos vel1 vel2 index d) a = vmem d a"
  "length (vmem (kernUpdateVelocityBruteForce N pos vel1 vel2 index d) a) = length (vmem d a)"
  "j \<noteq> index \<Longrightarrow> vmem (kernUpdateVelocityBruteForce N pos vel1 vel2 index d) a ! j = vmem d a ! j"
  by (simp_all add: kernUpdateVelocityBruteForce_def)

lemma kernUpdateVelocityBruteForce_nth:
  "vmem (kernUpdateVelocityBruteForce N pos vel1 vel2 index e) vel2 ! index =
     (if index < N \<and> index < length (vmem e vel2)
      then computeVelocityChange N index (vmem e pos) (vmem e vel1) else vmem e vel2 ! index)"
  by (simp add: kernUpdateVelocityBruteForce_def list_update_beyond)

lemma fold_kernUpdateVelocityBruteForce:
  assumes "vel2 \<noteq> pos" "vel2 \<noteq> vel1"
  shows "imem (fold (kernUpdateVelocityBruteForce N pos vel1 vel2) [0..<n] d) = imem d \<and>
     (\<forall>a. a \<noteq> vel2 \<longrightarrow> vmem (fold (kernUpdateVelocityBruteForce N pos vel1 vel2) [0..<n] d) a = vmem d a) \<and>
     length (vmem (fold (kernUpdateVelocityBruteForce N pos vel1 vel2) [0..<n] d) vel2)
        = length (vmem d vel2) \<and>
     (\<forall>j. vmem (fold (kernUpdateVelocityBruteForce N pos vel1 vel2) [0..<n] d) vel2 ! j =
          (if j < n \<and> j < N \<and> j < length (vmem d vel2)
           then computeVelocityChange N j (vmem d pos) (vmem d vel1) else vmem d vel2 ! j))"
proof (induction n)
  case 0
  show ?case by simp
next
  case (Suc n)
  define e where "e = fold (kernUpdateVelocityBruteForce N pos vel1 vel2) [0..<n] d"
  have step: "fold (kernUpdateVelocityBruteForce N pos vel1 vel2) [0..<Suc n] d
            = kernUpdateVelocityBruteForce N pos vel1 vel2 n e"
    by (simp add: e_def)
  have IH: "imem e = imem d" "\<And>a. a \<noteq> vel2 \<Longrightarrow> vmem e a = vmem d a"
    "length (vmem e vel2) = length (vmem d vel2)"
    "\<And>j. vmem e vel2 ! j = (if j < n \<and> j < N \<and> j < length (vmem d vel2)
           then computeVelocityChange N j (vmem d pos) (vmem d vel1) else vmem d vel2 ! j)"
    using Suc unfolding e_def by blast+
  have rd: "vmem e pos = vmem d pos" "vmem e vel1 = vmem d vel1"
    using IH(2) assms by metis+
  have here: "vmem (kernUpdateVelocityBruteForce N pos vel1 vel2 n e) vel2 ! n
     = (if n < N \<and> n < length (vmem d vel2)
        then computeVelocityChange N n (vmem d pos) (vmem d vel1) else vmem d vel2 ! n)"
    unfolding kernUpdateVelocityBruteForce_nth rd IH(3) by (simp add: IH(4))
  have other: "vmem (kernUpdateVelocityBruteForce N pos vel1 vel2 n e) vel2 ! j = vmem e vel2 ! j"
    if "j \<noteq> n" for j
    using that by (rule kernUpdateVelocityBruteForce_frame)
  show ?case
    unfolding step
  proof (intro conjI allI impI)
    show "imem (kernUpdateVelocityBruteForce N pos vel1 vel2 n e) = imem d"
      by (simp add: kernUpdateVelocityBruteForce_frame IH)
    show "vmem (kernUpdateVelocityBruteForce N pos vel1 vel2 n e) a = vmem d a" if "a \<noteq> vel2" for a
      using that by (simp add: kernUpdateVelocityBruteForce_frame IH)
    show "length (vmem (kernUpdateVelocityBruteForce N pos vel1 vel2 n e) vel2) = length (vmem d vel2)"
      by (simp add: kernUpdateVelocityBruteForce_frame IH)
    show "vmem (kernUpdateVelocityBruteForce N pos vel1 vel2 n e) vel2 ! j =
          (if j < Suc n \<and> j < N \<and> j < length (vmem d vel2)
           then computeVelocityChange N j (vmem d pos) (vmem d vel1) else vmem d vel2 ! j)" for j
    proof (cases "j = n")
      case True
      then show ?thesis using here by simp
    next
      case False
      then show ?thesis using other [OF False] IH(4) [of j] by (simp add: less_Suc_eq)
    qed
  qed
qed

lemma launch_kernUpdateVelocityBruteForce:
  assumes "vel2 \<noteq> pos" "vel2 \<noteq> vel1"
  shows "imem (launch (fullBlocksPerGrid N) (kernUpdateVelocityBruteForce N pos vel1 vel2) d) = imem d"
    and "a \<noteq> vel2 \<Longrightarrow>
           vmem (launch (fullBlocksPerGrid N) (kernUpdateVelocityBruteForce N pos vel1 vel2) d) a = vmem d a"
    and "length (vmem (launch (fullBlocksPerGrid N) (kernUpdateVelocityBruteForce N pos vel1 vel2) d) vel2)
           = length (vmem d vel2)"
    and "index < N \<Longrightarrow> index < length (vmem d vel2) \<Longrightarrow>
           vmem (launch (fullBlocksPerGrid N) (kernUpdateVelocityBruteForce N pos vel1 vel2) d) vel2 ! index
           = computeVelocityChange N index (vmem d pos) (vmem d vel1)"
    and "N \<le> index \<Longrightarrow>
           vmem (launch (fullBlocksPerGrid N) (kernUpdateVelocityBruteForce N pos vel1 vel2) d) vel2 ! index
           = vmem d vel2 ! index"
  using fold_kernUpdateVelocityBruteForce [OF assms, of N "fullBlocksPerGrid N * blockSize" d]
    blocks_cover [of N]
  by (auto simp: launch_def)

subsection \<open>Binary32 rounding\<close>

lemma bits_bounds: "0 < n \<Longrightarrow> 2 ^ (bits n - 1) \<le> n \<and> n < 2 ^ bits n"
proof (induction n rule: bits.induct)
  case (1 n)
  show ?case
  proof (cases "n div 2 = 0")
    case True
    with 1(2) have "n = 1" by (simp add: div_eq_0_iff)
    then show ?thesis by (simp add: bits.simps [of "Suc 0"] bits.simps [of 0])
  next
    case False
    then have pos: "0 < n div 2" by simp
    from 1(2) have n0: "n \<noteq> 0" by simp
    have IH: "2 ^ (bits (n div 2) - 1) \<le> n div 2" "n div 2 < 2 ^ bits (n div 2)"
      using 1(1) [OF n0 pos] by simp_all
    have b: "bits n = Suc (bits (n div 2))" using n0 by (simp add: bits.simps [of n])
    have bp: "0 < bits (n div 2)" using pos by (simp add: bits.simps [of "n div 2"])
    then have e: "bits (n div 2) = Suc (bits (n div 2) - 1)" by simp
    have "2 ^ (bits n - 1) = 2 * 2 ^ (bits (n div 2) - 1)"
      unfolding b using e by (metis diff_Suc_1 power_Suc)
    also have "\<dots> \<le> 2 * (n div 2)" using IH(1) by simp
    also have "\<dots> \<le> n" by simp
    finally have lo: "2 ^ (bits n - 1) \<le> n" .
    have "n < 2 * (n div 2) + 2" by arith
    also have "\<dots> \<le> 2 * 2 ^ bits (n div 2)" using IH(2) by simp
    finally have hi: "n < 2 ^ bits n" unfolding b by simp
    show ?thesis using lo hi by simp
  qed
qed

lemma bits_eq: "2 ^ k \<le> n \<Longrightarrow> n < 2 ^ Suc k \<Longrightarrow> bits n = Suc k"
proof -
  assume a: "2 ^ k \<le> n" "n < 2 ^ Suc k"
  then have pos: "0 < n" by (metis less_le_trans zero_less_numeral zero_less_power)
  note B = bits_bounds [OF pos]
  have "bits n - 1 < Suc k"
  proof (rule ccontr)
    assume "\<not> bits n - 1 < Suc k"
    then have "Suc k \<le> bits n - 1" by simp
    then have "(2::nat) ^ Suc k \<le> 2 ^ (bits n - 1)" by (rule power_increasing) simp
    with B a show False by simp
  qed
  moreover have "k < bits n"
  proof (rule ccontr)
    assume "\<not> k < bits n"
    then have "bits n \<le> k" by simp
    then have "(2::nat) ^ bits n \<le> 2 ^ k" by (rule power_increasing) simp
    with B a show False by simp
  qed
  ultimately show ?thesis by arith
qed



lemma rne_of_int [simp]: "rne (of_int k) = k"
  by (simp add: rne_def)








lemma round32_0 [simp]: "round32 0 = 0"
  by (simp add: round32_def rne_def)


subsection \<open>Lengths in binary32\<close>











subsection \<open>The speed limit\<close>





















subsection \<open>The grid indexer\<close>

lemma float2int_nonneg: "0 \<le> r \<Longrightarrow> float2int r = \<lfloor>r\<rfloor>"
  by (simp add: float2int_def)

lemma kernComputeIndices_frame:
  "vmem (kernComputeIndices N res gmin icw pos indices gridIndices index d) = vmem d"
  "a \<noteq> indices \<Longrightarrow> a \<noteq> gridIndices \<Longrightarrow>
     imem (kernComputeIndices N res gmin icw pos indices gridIndices index d) a = imem d a"
  "length (imem (kernComputeIndices N res gmin icw pos indices gridIndices index d) a)
     = length (imem d a)"
  "j \<noteq> index \<Longrightarrow>
     imem (kernComputeIndices N res gmin icw pos indices gridIndices index d) a ! j = imem d a ! j"
  by (simp_all add: kernComputeIndices_def Let_def)

lemma kernComputeIndices_nth:
  assumes "index < N" "index < length (imem d gridIndices)" "indices \<noteq> gridIndices"
  shows "imem (kernComputeIndices N res gmin icw pos indices gridIndices index d) gridIndices ! index
     = gridIndex3Dto1D (float2int ((vx (vmem d pos ! index) - vx gmin) * icw))
                       (float2int ((vy (vmem d pos ! index) - vy gmin) * icw))
                       (float2int ((vz (vmem d pos ! index) - vz gmin) * icw)) res"
  using assms by (simp add: kernComputeIndices_def Let_def)

lemma kernComputeIndices_nth_indices:
  assumes "index < N" "index < length (imem d indices)" "indices \<noteq> gridIndices"
  shows "imem (kernComputeIndices N res gmin icw pos indices gridIndices index d) indices ! index
     = int index"
  using assms by (simp add: kernComputeIndices_def Let_def)

lemma fold_kernComputeIndices:
  assumes "indices \<noteq> gridIndices"
  shows "vmem (fold (kernComputeIndices N res gmin icw pos indices gridIndices) [0..<n] d) = vmem d \<and>
     (\<forall>a. a \<noteq> indices \<and> a \<noteq> gridIndices \<longrightarrow>
        imem (fold (kernComputeIndices N res gmin icw pos indices gridIndices) [0..<n] d) a = imem d a) \<and>
     (\<forall>a. length (imem (fold (kernComputeIndices N res gmin icw pos indices gridIndices) [0..<n] d) a)
        = length (imem d a)) \<and>
     (\<forall>j. imem (fold (kernComputeIndices N res gmin icw pos indices gridIndices) [0..<n] d) gridIndices ! j =
          (if j < n \<and> j < N \<and> j < length (imem d gridIndices)
           then gridIndex3Dto1D (float2int ((vx (vmem d pos ! j) - vx gmin) * icw))
                       (float2int ((vy (vmem d pos ! j) - vy gmin) * icw))
                       (float2int ((vz (vmem d pos ! j) - vz gmin) * icw)) res
           else imem d gridIndices ! j)) \<and>
     (\<forall>j. imem (fold (kernComputeIndices N res gmin icw pos indices gridIndices) [0..<n] d) indices ! j =
          (if j < n \<and> j < N \<and> j < length (imem d indices) then int j else imem d indices ! j))"
proof (induction n)
  case 0
  show ?case by simp
next
  case (Suc n)
  define e where "e = fold (kernComputeIndices N res gmin icw pos indices gridIndices) [0..<n] d"
  define K where "K = kernComputeIndices N res gmin icw pos indices gridIndices n e"
  have step: "fold (kernComputeIndices N res gmin icw pos indices gridIndices) [0..<Suc n] d = K"
    by (simp add: e_def K_def)
  have IH: "vmem e = vmem d"
    "\<And>a. a \<noteq> indices \<Longrightarrow> a \<noteq> gridIndices \<Longrightarrow> imem e a = imem d a"
    "\<And>a. length (imem e a) = length (imem d a)"
    "\<And>j. imem e gridIndices ! j =
          (if j < n \<and> j < N \<and> j < length (imem d gridIndices)
           then gridIndex3Dto1D (float2int ((vx (vmem d pos ! j) - vx gmin) * icw))
                       (float2int ((vy (vmem d pos ! j) - vy gmin) * icw))
                       (float2int ((vz (vmem d pos ! j) - vz gmin) * icw)) res
           else imem d gridIndices ! j)"
    "\<And>j. imem e indices ! j =
          (if j < n \<and> j < N \<and> j < length (imem d indices) then int j else imem d indices ! j)"
    using Suc unfolding e_def by blast+
  have idle: "K = e" if "\<not> n < N"
    using that by (simp add: K_def kernComputeIndices_def)
  have g_here: "imem K gridIndices ! n =
      gridIndex3Dto1D (float2int ((vx (vmem d pos ! n) - vx gmin) * icw))
                       (float2int ((vy (vmem d pos ! n) - vy gmin) * icw))
                       (float2int ((vz (vmem d pos ! n) - vz gmin) * icw)) res"
    if "n < N" "n < length (imem d gridIndices)"
    unfolding K_def using that assms kernComputeIndices_nth [of n N e gridIndices indices res gmin icw pos]
    by (simp add: IH)
  have g_beyond: "imem K gridIndices ! n = imem d gridIndices ! n"
    if "\<not> n < length (imem d gridIndices)"
    unfolding K_def using that IH(4) [of n] assms
    by (simp add: kernComputeIndices_def Let_def list_update_beyond IH(3))
  have i_here: "imem K indices ! n = int n" if "n < N" "n < length (imem d indices)"
    unfolding K_def using that assms by (simp add: kernComputeIndices_nth_indices IH)
  have i_beyond: "imem K indices ! n = imem d indices ! n"
    if "\<not> n < length (imem d indices)"
    unfolding K_def using that IH(5) [of n] assms
    by (simp add: kernComputeIndices_def Let_def list_update_beyond IH(3))
  have other: "imem K a ! j = imem e a ! j" if "j \<noteq> n" for j a
    unfolding K_def using that by (rule kernComputeIndices_frame)
  show ?case
    unfolding step
  proof (intro conjI allI impI)
    show "vmem K = vmem d" by (simp add: K_def kernComputeIndices_frame IH)
    show "imem K a = imem d a" if "a \<noteq> indices \<and> a \<noteq> gridIndices" for a
      using that by (simp add: K_def kernComputeIndices_frame IH)
    show "length (imem K a) = length (imem d a)" for a
      by (simp add: K_def kernComputeIndices_frame IH)
    show "imem K gridIndices ! j =
          (if j < Suc n \<and> j < N \<and> j < length (imem d gridIndices)
           then gridIndex3Dto1D (float2int ((vx (vmem d pos ! j) - vx gmin) * icw))
                       (float2int ((vy (vmem d pos ! j) - vy gmin) * icw))
                       (float2int ((vz (vmem d pos ! j) - vz gmin) * icw)) res
           else imem d gridIndices ! j)" for j
    proof (cases "j = n")
      case True
      show ?thesis
        using g_here g_beyond idle IH(4) [of n] unfolding True by (cases "n < N") auto
    next
      case False
      then show ?thesis using other [OF False] IH(4) [of j] by (simp add: less_Suc_eq)
    qed
    show "imem K indices ! j =
          (if j < Suc n \<and> j < N \<and> j < length (imem d indices) then int j else imem d indices ! j)" for j
    proof (cases "j = n")
      case True
      show ?thesis
        using i_here i_beyond idle IH(5) [of n] unfolding True by (cases "n < N") auto
    next
      case False
      then show ?thesis using other [OF False] IH(5) [of j] by (simp add: less_Suc_eq)
    qed
  qed
qed


lemma launch_kernComputeIndices:
  assumes "indices \<noteq> gridIndices"
  shows "vmem (launch (fullBlocksPerGrid N)
            (kernComputeIndices N res gmin icw pos indices gridIndices) d) = vmem d"
    and "a \<noteq> indices \<Longrightarrow> a \<noteq> gridIndices \<Longrightarrow>
         imem (launch (fullBlocksPerGrid N)
            (kernComputeIndices N res gmin icw pos indices gridIndices) d) a = imem d a"
    and "length (imem (launch (fullBlocksPerGrid N)
            (kernComputeIndices N res gmin icw pos indices gridIndices) d) a) = length (imem d a)"
    and "index < N \<Longrightarrow> index < length (imem d gridIndices) \<Longrightarrow>
         imem (launch (fullBlocksPerGrid N)
            (kernComputeIndices N res gmin icw pos indices gridIndices) d) gridIndices ! index
         = gridIndex3Dto1D (float2int ((vx (vmem d pos ! index) - vx gmin) * icw))
                       (float2int ((vy (vmem d pos ! index) - vy gmin) * icw))
                       (float2int ((vz (vmem d pos ! index) - vz gmin) * icw)) res"
    and "index < N \<Longrightarrow> index < length (imem d indices) \<Longrightarrow>
         imem (launch (fullBlocksPerGrid N)
            (kernComputeIndices N res gmin icw pos indices gridIndices) d) indices ! index
         = int index"
    and "N \<le> index \<Longrightarrow>
         imem (launch (fullBlocksPerGrid N)
            (kernComputeIndices N res gmin icw pos indices gridIndices) d) gridIndices ! index
         = imem d gridIndices ! index"
    and "N \<le> index \<Longrightarrow>
         imem (launch (fullBlocksPerGrid N)
            (kernComputeIndices N res gmin icw pos indices gridIndices) d) indices ! index
         = imem d indices ! index"
  using fold_kernComputeIndices [OF assms, of N res gmin icw pos "fullBlocksPerGrid N * blockSize" d]
    blocks_cover [of N]
  by (auto simp: launch_def)

lemma grid_params:
  "gridCellWidth = 10" "halfSideCount = 11" "gridSideCount = 22" "gridCellCount = 10648"
  "gridInverseCellWidth = 1 / 10" "gridMinimum = Vec3 (- 110) (- 110) (- 110)"
proof -
  show w: "gridCellWidth = 10"
    by (simp add: gridCellWidth_def rule1Distance_def rule2Distance_def rule3Distance_def)
  show h: "halfSideCount = 11"
    by (simp add: halfSideCount_def w scene_scale_def float2int_def)
  show s: "gridSideCount = 22" by (simp add: gridSideCount_def h)
  show "gridCellCount = 10648" by (simp add: gridCellCount_def s)
  show "gridInverseCellWidth = 1 / 10" by (simp add: gridInverseCellWidth_def w)
  show "gridMinimum = Vec3 (- 110) (- 110) (- 110)" by (simp add: gridMinimum_def w h)
qed

lemma floor_cell_bounds:
  fixes p g w :: real and n :: int
  assumes "0 < w" "g \<le> p" "p < g + of_int n * w"
  shows "0 \<le> \<lfloor>(p - g) * (1 / w)\<rfloor> \<and> \<lfloor>(p - g) * (1 / w)\<rfloor> < n"
proof -
  have "0 \<le> (p - g) / w" using assms by simp
  moreover have "(p - g) / w < of_int n" using assms by (simp add: pos_divide_less_eq algebra_simps)
  ultimately show ?thesis by (simp add: floor_less_iff)
qed

text \<open>
  C7.  For a particle whose position \<open>p\<close> lies in the grid on every axis (at least
  \<open>gridMin\<close> and below \<open>gridMin + gridResolution * cellWidth\<close>, with
  \<open>inverseCellWidth = 1 / cellWidth\<close>), the indexer launch writes into the particle's slot of
  the cell-id buffer the number \<open>x + y * gridResolution + z * gridResolution * gridResolution\<close>
  where \<open>(x, y, z)\<close> is the floor of \<open>(p - gridMin) * inverseCellWidth\<close> per axis; each of
  \<open>x\<close>, \<open>y\<close>, \<open>z\<close> is a cell coordinate of the grid (from 0 to below \<open>gridResolution\<close>).
\<close>

theorem kernComputeIndices_cell_id:
  fixes N index :: nat and gridResolution :: int and gridMin :: vec3
    and inverseCellWidth cellWidth :: real and pos indices gridIndices :: addr and d :: device
  defines "p \<equiv> vmem d pos ! index"
  defines "x \<equiv> \<lfloor>(vx p - vx gridMin) * inverseCellWidth\<rfloor>"
    and "y \<equiv> \<lfloor>(vy p - vy gridMin) * inverseCellWidth\<rfloor>"
    and "z \<equiv> \<lfloor>(vz p - vz gridMin) * inverseCellWidth\<rfloor>"
  assumes "indices \<noteq> gridIndices" and "index < N" and "N \<le> length (imem d gridIndices)"
    and "0 < cellWidth" and "inverseCellWidth = 1 / cellWidth"
    and "vx gridMin \<le> vx p" and "vx p < vx gridMin + of_int gridResolution * cellWidth"
    and "vy gridMin \<le> vy p" and "vy p < vy gridMin + of_int gridResolution * cellWidth"
    and "vz gridMin \<le> vz p" and "vz p < vz gridMin + of_int gridResolution * cellWidth"
  shows "imem (launch (fullBlocksPerGrid N)
            (kernComputeIndices N gridResolution gridMin inverseCellWidth pos indices gridIndices) d)
            gridIndices ! index
         = x + y * gridResolution + z * gridResolution * gridResolution \<and>
         0 \<le> x \<and> x < gridResolution \<and> 0 \<le> y \<and> y < gridResolution \<and>
         0 \<le> z \<and> z < gridResolution"
proof -
  have bx: "0 \<le> x \<and> x < gridResolution"
    unfolding x_def assms(9) using assms(8,10,11) by (rule floor_cell_bounds)
  have by': "0 \<le> y \<and> y < gridResolution"
    unfolding y_def assms(9) using assms(8,12,13) by (rule floor_cell_bounds)
  have bz: "0 \<le> z \<and> z < gridResolution"
    unfolding z_def assms(9) using assms(8,14,15) by (rule floor_cell_bounds)
  have nn: "0 \<le> (vx p - vx gridMin) * inverseCellWidth"
    "0 \<le> (vy p - vy gridMin) * inverseCellWidth" "0 \<le> (vz p - vz gridMin) * inverseCellWidth"
    using assms(8,9,10,12,14) by simp_all
  have "imem (launch (fullBlocksPerGrid N)
            (kernComputeIndices N gridResolution gridMin inverseCellWidth pos indices gridIndices) d)
            gridIndices ! index
      = gridIndex3Dto1D (float2int ((vx p - vx gridMin) * inverseCellWidth))
          (float2int ((vy p - vy gridMin) * inverseCellWidth))
          (float2int ((vz p - vz gridMin) * inverseCellWidth)) gridResolution"
    unfolding p_def using assms(5,6,7) by (simp add: launch_kernComputeIndices)
  also have "\<dots> = x + y * gridResolution + z * gridResolution * gridResolution"
    by (simp add: gridIndex3Dto1D_def float2int_nonneg nn x_def y_def z_def)
  finally show ?thesis using bx by' bz by simp
qed

theorem kernComputeIndices_cell_id_witness:
  "imem (launch (fullBlocksPerGrid 1)
      (kernComputeIndices 1 gridSideCount gridMinimum gridInverseCellWidth 0 0 1)
      \<lparr>vmem = (\<lambda>a. [Vec3 1 1 1]), imem = (\<lambda>a. [0])\<rparr>) 1 ! 0 = 5577"
  using kernComputeIndices_cell_id [of 0 1 0 1 "\<lparr>vmem = (\<lambda>a. [Vec3 1 1 1]), imem = (\<lambda>a. [0])\<rparr>"
      gridCellWidth gridInverseCellWidth gridMinimum 0 gridSideCount]
  by (simp add: grid_params)

subsection \<open>Frame of the velocity evaluation and the buffer swap\<close>

text \<open>The threads of the brute-force kernel in any order and any multiplicity: a slot
  of the next-velocity buffer holds the value computed from the memory before the launch
  if its thread ran, and its old value otherwise.\<close>

lemma fold_kernUpdateVelocityBruteForce_any_order:
  assumes "vel2 \<noteq> pos" "vel2 \<noteq> vel1"
  shows "imem (fold (kernUpdateVelocityBruteForce N pos vel1 vel2) sched d) = imem d \<and>
     (\<forall>a. a \<noteq> vel2 \<longrightarrow>
        vmem (fold (kernUpdateVelocityBruteForce N pos vel1 vel2) sched d) a = vmem d a) \<and>
     length (vmem (fold (kernUpdateVelocityBruteForce N pos vel1 vel2) sched d) vel2)
        = length (vmem d vel2) \<and>
     (\<forall>j. vmem (fold (kernUpdateVelocityBruteForce N pos vel1 vel2) sched d) vel2 ! j =
          (if j \<in> set sched \<and> j < N \<and> j < length (vmem d vel2)
           then computeVelocityChange N j (vmem d pos) (vmem d vel1) else vmem d vel2 ! j))"
proof (induction sched rule: rev_induct)
  case Nil
  show ?case by simp
next
  case (snoc n sched)
  define e where "e = fold (kernUpdateVelocityBruteForce N pos vel1 vel2) sched d"
  have step: "fold (kernUpdateVelocityBruteForce N pos vel1 vel2) (sched @ [n]) d
            = kernUpdateVelocityBruteForce N pos vel1 vel2 n e"
    by (simp add: e_def)
  have IH: "imem e = imem d" "\<And>a. a \<noteq> vel2 \<Longrightarrow> vmem e a = vmem d a"
    "length (vmem e vel2) = length (vmem d vel2)"
    "\<And>j. vmem e vel2 ! j = (if j \<in> set sched \<and> j < N \<and> j < length (vmem d vel2)
           then computeVelocityChange N j (vmem d pos) (vmem d vel1) else vmem d vel2 ! j)"
    using snoc unfolding e_def by blast+
  have rd: "vmem e pos = vmem d pos" "vmem e vel1 = vmem d vel1"
    using IH(2) assms by metis+
  have here: "vmem (kernUpdateVelocityBruteForce N pos vel1 vel2 n e) vel2 ! n
     = (if n < N \<and> n < length (vmem d vel2)
        then computeVelocityChange N n (vmem d pos) (vmem d vel1) else vmem e vel2 ! n)"
    unfolding kernUpdateVelocityBruteForce_nth rd IH(3) by simp
  have other: "vmem (kernUpdateVelocityBruteForce N pos vel1 vel2 n e) vel2 ! j = vmem e vel2 ! j"
    if "j \<noteq> n" for j
    using that by (rule kernUpdateVelocityBruteForce_frame)
  show ?case
    unfolding step
  proof (intro conjI allI impI)
    show "imem (kernUpdateVelocityBruteForce N pos vel1 vel2 n e) = imem d"
      by (simp add: kernUpdateVelocityBruteForce_frame IH)
    show "vmem (kernUpdateVelocityBruteForce N pos vel1 vel2 n e) a = vmem d a" if "a \<noteq> vel2" for a
      using that by (simp add: kernUpdateVelocityBruteForce_frame IH)
    show "length (vmem (kernUpdateVelocityBruteForce N pos vel1 vel2 n e) vel2) = length (vmem d vel2)"
      by (simp add: kernUpdateVelocityBruteForce_frame IH)
    show "vmem (kernUpdateVelocityBruteForce N pos vel1 vel2 n e) vel2 ! j =
          (if j \<in> set (sched @ [n]) \<and> j < N \<and> j < length (vmem d vel2)
           then computeVelocityChange N j (vmem d pos) (vmem d vel1) else vmem d vel2 ! j)" for j
    proof (cases "j = n")
      case True
      then show ?thesis using here IH(4) [of n] by simp
    next
      case False
      then show ?thesis using other [OF False] IH(4) [of j] by simp
    qed
  qed
qed

lemma stepSimulationNaive_pointers:
  "dev_vel1 (stepSimulationNaive dt s) = dev_vel2 s"
  "dev_vel2 (stepSimulationNaive dt s) = dev_vel1 s"
  "dev_pos (stepSimulationNaive dt s) = dev_pos s"
  "mem (stepSimulationNaive dt s) =
     launch (fullBlocksPerGrid (numObjects s))
       (kernUpdatePos (numObjects s) dt (dev_pos s) (dev_vel2 s))
       (launch (fullBlocksPerGrid (numObjects s))
          (kernUpdateVelocityBruteForce (numObjects s) (dev_pos s) (dev_vel1 s) (dev_vel2 s))
          (mem s))"
  by (simp_all add: stepSimulationNaive_def Let_def)

text \<open>
  C9.  (1) The thread of particle \<open>index\<close> in the brute-force velocity kernel changes
  nothing but slot \<open>index\<close> of the next-velocity buffer \<open>vel2\<close>.  (2) When \<open>vel2\<close> is neither
  the position buffer nor the current-velocity buffer, the whole launch leaves these two
  buffers as they were, and what it stores does not depend on the order in which the
  threads run.  (3) The naive step exchanges the two velocity pointers: afterwards the new
  \<open>dev_vel1\<close> is the old \<open>dev_vel2\<close> and holds what the evaluation wrote, the new \<open>dev_vel2\<close>
  is the old \<open>dev_vel1\<close> and still holds the old current velocities, so no data moved.
\<close>

theorem velocity_evaluation_frame:
  fixes N index :: nat and pos vel1 vel2 :: addr and d :: device and dt :: real and s :: boids
  defines "evaluated \<equiv> launch (fullBlocksPerGrid N) (kernUpdateVelocityBruteForce N pos vel1 vel2) d"
    and "s' \<equiv> stepSimulationNaive dt s"
  shows "imem (kernUpdateVelocityBruteForce N pos vel1 vel2 index d) = imem d \<and>
         (\<forall>a. a \<noteq> vel2 \<longrightarrow>
            vmem (kernUpdateVelocityBruteForce N pos vel1 vel2 index d) a = vmem d a) \<and>
         length (vmem (kernUpdateVelocityBruteForce N pos vel1 vel2 index d) vel2)
            = length (vmem d vel2) \<and>
         (\<forall>j. j \<noteq> index \<longrightarrow>
            vmem (kernUpdateVelocityBruteForce N pos vel1 vel2 index d) vel2 ! j = vmem d vel2 ! j) \<and>
         (vel2 \<noteq> pos \<and> vel2 \<noteq> vel1 \<longrightarrow>
            vmem evaluated pos = vmem d pos \<and> vmem evaluated vel1 = vmem d vel1 \<and>
            imem evaluated = imem d \<and>
            (\<forall>sched. set sched = {0..<fullBlocksPerGrid N * blockSize} \<longrightarrow>
               vmem (fold (kernUpdateVelocityBruteForce N pos vel1 vel2) sched d) = vmem evaluated)) \<and>
         dev_vel1 s' = dev_vel2 s \<and> dev_vel2 s' = dev_vel1 s \<and> dev_pos s' = dev_pos s \<and>
         (dev_vel2 s \<noteq> dev_pos s \<and> dev_vel2 s \<noteq> dev_vel1 s \<and> dev_pos s \<noteq> dev_vel1 s \<longrightarrow>
            vmem (mem s') (dev_vel2 s') = vmem (mem s) (dev_vel1 s) \<and>
            vmem (mem s') (dev_vel1 s') =
              vmem (launch (fullBlocksPerGrid (numObjects s))
                 (kernUpdateVelocityBruteForce (numObjects s) (dev_pos s) (dev_vel1 s) (dev_vel2 s))
                 (mem s)) (dev_vel2 s))"
proof -
  have thread: "imem (kernUpdateVelocityBruteForce N pos vel1 vel2 index d) = imem d \<and>
         (\<forall>a. a \<noteq> vel2 \<longrightarrow>
            vmem (kernUpdateVelocityBruteForce N pos vel1 vel2 index d) a = vmem d a) \<and>
         length (vmem (kernUpdateVelocityBruteForce N pos vel1 vel2 index d) vel2)
            = length (vmem d vel2) \<and>
         (\<forall>j. j \<noteq> index \<longrightarrow>
            vmem (kernUpdateVelocityBruteForce N pos vel1 vel2 index d) vel2 ! j = vmem d vel2 ! j)"
    by (simp add: kernUpdateVelocityBruteForce_frame)
  have stage: "vmem evaluated pos = vmem d pos \<and> vmem evaluated vel1 = vmem d vel1 \<and>
            imem evaluated = imem d \<and>
            (\<forall>sched. set sched = {0..<fullBlocksPerGrid N * blockSize} \<longrightarrow>
               vmem (fold (kernUpdateVelocityBruteForce N pos vel1 vel2) sched d) = vmem evaluated)"
    if ne: "vel2 \<noteq> pos \<and> vel2 \<noteq> vel1"
  proof (intro conjI allI impI)
    from ne have ne1: "vel2 \<noteq> pos" and ne2: "vel2 \<noteq> vel1" by simp_all
    show "vmem evaluated pos = vmem d pos" "vmem evaluated vel1 = vmem d vel1"
      unfolding evaluated_def using ne
      by (metis launch_kernUpdateVelocityBruteForce(2))+
    show "imem evaluated = imem d"
      unfolding evaluated_def using ne1 ne2 by (rule launch_kernUpdateVelocityBruteForce)
    fix sched :: "nat list"
    assume sched: "set sched = {0..<fullBlocksPerGrid N * blockSize}"
    let ?K = "kernUpdateVelocityBruteForce N pos vel1 vel2"
    note A = fold_kernUpdateVelocityBruteForce_any_order [OF ne1 ne2, of N sched d]
    note B = fold_kernUpdateVelocityBruteForce_any_order
               [OF ne1 ne2, of N "[0..<fullBlocksPerGrid N * blockSize]" d]
    have "vmem (fold ?K sched d) a = vmem (fold ?K [0..<fullBlocksPerGrid N * blockSize] d) a" for a
    proof (cases "a = vel2")
      case False
      then show ?thesis using A B by simp
    next
      case True
      have "vmem (fold ?K sched d) vel2 = vmem (fold ?K [0..<fullBlocksPerGrid N * blockSize] d) vel2"
      proof (rule nth_equalityI)
        show "length (vmem (fold ?K sched d) vel2)
            = length (vmem (fold ?K [0..<fullBlocksPerGrid N * blockSize] d) vel2)"
          using A B by simp
        fix j
        show "vmem (fold ?K sched d) vel2 ! j
            = vmem (fold ?K [0..<fullBlocksPerGrid N * blockSize] d) vel2 ! j"
          using A B sched by simp
      qed
      then show ?thesis using True by simp
    qed
    then show "vmem (fold ?K sched d) = vmem evaluated"
      unfolding evaluated_def launch_def by (simp add: fun_eq_iff)
  qed
  have swap: "dev_vel1 s' = dev_vel2 s \<and> dev_vel2 s' = dev_vel1 s \<and> dev_pos s' = dev_pos s"
    by (simp add: s'_def stepSimulationNaive_pointers)
  have bufs: "vmem (mem s') (dev_vel2 s') = vmem (mem s) (dev_vel1 s) \<and>
            vmem (mem s') (dev_vel1 s') =
              vmem (launch (fullBlocksPerGrid (numObjects s))
                 (kernUpdateVelocityBruteForce (numObjects s) (dev_pos s) (dev_vel1 s) (dev_vel2 s))
                 (mem s)) (dev_vel2 s)"
    if ne: "dev_vel2 s \<noteq> dev_pos s \<and> dev_vel2 s \<noteq> dev_vel1 s \<and> dev_pos s \<noteq> dev_vel1 s"
  proof -
    from ne have ne1: "dev_vel2 s \<noteq> dev_pos s" and ne2: "dev_vel2 s \<noteq> dev_vel1 s"
      and ne3: "dev_pos s \<noteq> dev_vel1 s" "dev_vel1 s \<noteq> dev_pos s" "dev_pos s \<noteq> dev_vel2 s"
      "dev_vel1 s \<noteq> dev_vel2 s"
      by auto
    show ?thesis
      unfolding s'_def stepSimulationNaive_pointers
      by (simp add: launch_kernUpdatePos(2) [OF ne3(3)] ne3 ne1 ne2
            launch_kernUpdateVelocityBruteForce(2) [OF ne1 ne2])
  qed
  show ?thesis using thread stage swap bufs by blast
qed


theorem velocity_evaluation_frame_witness:
  "(let s = \<lparr>numObjects = 1,
         mem = \<lparr>vmem = (\<lambda>a. [Vec3 0 0 0])(1 := [Vec3 2 0 0], 2 := [Vec3 9 9 9]),
                imem = (\<lambda>a. [])\<rparr>,
         dev_pos = 0, dev_vel1 = 1, dev_vel2 = 2, dev_particleArrayIndices = 0,
         dev_particleGridIndices = 1, dev_gridCellStartIndices = 2, dev_gridCellEndIndices = 3,
         dev_particleGridIndicesPosSort = 4, dev_particleGridIndicesVelSort = 5\<rparr>;
        s' = stepSimulationNaive 1 s
    in dev_vel1 s' = 2 \<and> dev_vel2 s' = 1 \<and>
       vmem (mem s') 1 = [Vec3 2 0 0] \<and> vmem (mem s') 2 ! 0 = Vec3 1 0 0)"
proof -
  define d0 where "d0 = \<lparr>vmem = (\<lambda>a. [Vec3 0 0 0])(1 := [Vec3 2 0 0], 2 := [Vec3 9 9 9]),
                imem = (\<lambda>a::addr. ([]::int list))\<rparr>"
  define s0 where "s0 = \<lparr>numObjects = 1, mem = d0,
         dev_pos = 0, dev_vel1 = 1, dev_vel2 = 2, dev_particleArrayIndices = 0,
         dev_particleGridIndices = 1, dev_gridCellStartIndices = 2, dev_gridCellEndIndices = 3,
         dev_particleGridIndicesPosSort = 4, dev_particleGridIndicesVelSort = 5\<rparr>"
  have f: "numObjects s0 = 1" "mem s0 = d0" "dev_pos s0 = 0" "dev_vel1 s0 = 1" "dev_vel2 s0 = 2"
    by (simp_all add: s0_def)
  have ne: "dev_vel2 s0 \<noteq> dev_pos s0 \<and> dev_vel2 s0 \<noteq> dev_vel1 s0 \<and> dev_pos s0 \<noteq> dev_vel1 s0"
    by (simp add: f)
  note T = velocity_evaluation_frame [of 1 0 1 2 0 d0 1 s0]
  have swap: "dev_vel1 (stepSimulationNaive 1 s0) = 2" "dev_vel2 (stepSimulationNaive 1 s0) = 1"
    using T by (simp_all add: f)
  have bufs: "vmem (mem (stepSimulationNaive 1 s0)) (dev_vel2 (stepSimulationNaive 1 s0))
                = vmem (mem s0) (dev_vel1 s0)"
    "vmem (mem (stepSimulationNaive 1 s0)) (dev_vel1 (stepSimulationNaive 1 s0)) =
              vmem (launch (fullBlocksPerGrid (numObjects s0))
                 (kernUpdateVelocityBruteForce (numObjects s0) (dev_pos s0) (dev_vel1 s0) (dev_vel2 s0))
                 (mem s0)) (dev_vel2 s0)"
    using T ne by blast+
  have old: "vmem (mem (stepSimulationNaive 1 s0)) 1 = [Vec3 2 0 0]"
    using bufs(1) unfolding swap f by (simp add: d0_def)
  have "vmem (launch (fullBlocksPerGrid 1) (kernUpdateVelocityBruteForce 1 0 1 2) d0) 2 ! 0
      = computeVelocityChange 1 0 (vmem d0 0) (vmem d0 1)"
    by (rule launch_kernUpdateVelocityBruteForce) (simp_all add: d0_def)
  also have "\<dots> = Vec3 1 0 0"
    by (simp add: d0_def kernUpdateVelocityRule1_def kernUpdateVelocityRule2_def
        kernUpdateVelocityRule3_def computeVelocityChange_def vec_defs vlength_def maxSpeed_def)
  finally have new: "vmem (mem (stepSimulationNaive 1 s0)) 2 ! 0 = Vec3 1 0 0"
    using bufs(2) unfolding swap f by simp
  show ?thesis
    unfolding Let_def using swap old new unfolding s0_def d0_def by simp
qed

subsection \<open>The cell-range builder\<close>

lemma fold_idle: "(\<And>i. i \<in> set xs \<Longrightarrow> kern i d = d) \<Longrightarrow> fold kern xs d = d"
  by (induction xs) auto

text \<open>A kernel whose threads from \<open>N\<close> on do nothing: the launch is the run of the
  first \<open>N\<close> threads.\<close>

lemma launch_active:
  assumes "\<And>index e. N \<le> index \<Longrightarrow> kern index e = e"
  shows "launch (fullBlocksPerGrid N) kern d = fold kern [0..<N] d"
proof -
  have "[0..<fullBlocksPerGrid N * blockSize] = [0..<N] @ [N..<fullBlocksPerGrid N * blockSize]"
    using blocks_cover [of N] upt_add_eq_append [of 0 N "fullBlocksPerGrid N * blockSize - N"]
    by simp
  moreover have "fold kern [N..<fullBlocksPerGrid N * blockSize] e = e" for e
    by (rule fold_idle) (simp add: assms)
  ultimately show ?thesis by (simp add: launch_def)
qed

lemma store_at_nth:
  "0 \<le> k \<Longrightarrow> nat k < length xs \<Longrightarrow> 0 \<le> c \<Longrightarrow>
     store_at xs k v ! nat c = (if c = k then v else xs ! nat c)"
  by (auto simp: store_at_def nth_list_update)

lemma length_store_at: "length (store_at xs k v) = length xs"
  by (simp add: store_at_def)

lemma kernIdentifyCellStartEnd_frame:
  assumes "g \<noteq> st" "g \<noteq> en"
  shows "vmem (kernIdentifyCellStartEnd N g st en index d) = vmem d"
    and "a \<noteq> st \<Longrightarrow> a \<noteq> en \<Longrightarrow> imem (kernIdentifyCellStartEnd N g st en index d) a = imem d a"
    and "length (imem (kernIdentifyCellStartEnd N g st en index d) a) = length (imem d a)"
  using assms by (simp_all add: kernIdentifyCellStartEnd_def Let_def length_store_at)

lemma kernIdentifyCellStartEnd_start:
  assumes "g \<noteq> st" "g \<noteq> en" "st \<noteq> en"
  shows "imem (kernIdentifyCellStartEnd N g st en index d) st =
     (if index < N \<and> (index = 0 \<or> imem d g ! index \<noteq> imem d g ! (index - 1))
      then store_at (imem d st) (imem d g ! index) (int index) else imem d st)"
proof (cases "index < N")
  case False
  then show ?thesis by (simp add: kernIdentifyCellStartEnd_def)
next
  case True
  show ?thesis
  proof (cases "index = 0 \<or> imem d g ! index \<noteq> imem d g ! (index - 1)")
    case op: True
    show ?thesis
      unfolding kernIdentifyCellStartEnd_def Let_def if_P [OF True] if_P [OF op]
      using assms True op by simp
  next
    case op: False
    show ?thesis
      unfolding kernIdentifyCellStartEnd_def Let_def if_P [OF True] if_not_P [OF op]
      using assms True op by simp
  qed
qed

lemma kernIdentifyCellStartEnd_end:
  assumes "g \<noteq> st" "g \<noteq> en" "st \<noteq> en"
  shows "imem (kernIdentifyCellStartEnd N g st en index d) en =
     (if index < N \<and> (index = N - 1 \<or> imem d g ! index \<noteq> imem d g ! (index + 1))
      then store_at (imem d en) (imem d g ! index) (int index + 1) else imem d en)"
proof (cases "index < N")
  case False
  then show ?thesis by (simp add: kernIdentifyCellStartEnd_def)
next
  case True
  show ?thesis
  proof (cases "index = 0 \<or> imem d g ! index \<noteq> imem d g ! (index - 1)")
    case op: True
    show ?thesis
      unfolding kernIdentifyCellStartEnd_def Let_def if_P [OF True] if_P [OF op]
      using assms True by simp
  next
    case op: False
    show ?thesis
      unfolding kernIdentifyCellStartEnd_def Let_def if_P [OF True] if_not_P [OF op]
      using assms True by simp
  qed
qed


text \<open>The state of the two range buffers after the threads \<open>0, \<dots>, n - 1\<close>, for keys that
  ascend: a thread that opens a run has left its index in the start slot of its key, a
  thread that closes a run has left its index plus one in the end slot, and the slot of
  a key that no such thread carries is as before.\<close>

lemma fold_kernIdentifyCellStartEnd:
  fixes N :: nat and g st en :: addr and d :: device
  defines "G \<equiv> imem d g"
  assumes dist: "g \<noteq> st" "g \<noteq> en" "st \<noteq> en"
    and ascending: "\<forall>i j. i \<le> j \<longrightarrow> j < N \<longrightarrow> G ! i \<le> G ! j"
    and in_range: "\<forall>i<N. 0 \<le> G ! i \<and> nat (G ! i) < length (imem d st) \<and>
                   nat (G ! i) < length (imem d en)"
    and n: "n \<le> N"
  shows "vmem (fold (kernIdentifyCellStartEnd N g st en) [0..<n] d) = vmem d \<and>
    (\<forall>a. a \<noteq> st \<longrightarrow> a \<noteq> en \<longrightarrow>
       imem (fold (kernIdentifyCellStartEnd N g st en) [0..<n] d) a = imem d a) \<and>
    (\<forall>a. length (imem (fold (kernIdentifyCellStartEnd N g st en) [0..<n] d) a) = length (imem d a)) \<and>
    (\<forall>f<n. (f = 0 \<or> G ! f \<noteq> G ! (f - 1)) \<longrightarrow>
       imem (fold (kernIdentifyCellStartEnd N g st en) [0..<n] d) st ! nat (G ! f) = int f) \<and>
    (\<forall>c\<ge>0. (\<forall>f<n. (f = 0 \<or> G ! f \<noteq> G ! (f - 1)) \<longrightarrow> G ! f \<noteq> c) \<longrightarrow>
       imem (fold (kernIdentifyCellStartEnd N g st en) [0..<n] d) st ! nat c = imem d st ! nat c) \<and>
    (\<forall>l<n. (l = N - 1 \<or> G ! l \<noteq> G ! (l + 1)) \<longrightarrow>
       imem (fold (kernIdentifyCellStartEnd N g st en) [0..<n] d) en ! nat (G ! l) = int l + 1) \<and>
    (\<forall>c\<ge>0. (\<forall>l<n. (l = N - 1 \<or> G ! l \<noteq> G ! (l + 1)) \<longrightarrow> G ! l \<noteq> c) \<longrightarrow>
       imem (fold (kernIdentifyCellStartEnd N g st en) [0..<n] d) en ! nat c = imem d en ! nat c)"
  using n
proof (induction n)
  case 0
  show ?case by simp
next
  case (Suc n)
  note mono = ascending [rule_format] and range = in_range [rule_format]
  define e where "e = fold (kernIdentifyCellStartEnd N g st en) [0..<n] d"
  define K where "K = kernIdentifyCellStartEnd N g st en n e"
  have step: "fold (kernIdentifyCellStartEnd N g st en) [0..<Suc n] d = K"
    by (simp add: e_def K_def)
  have nN: "n < N" using Suc.prems by simp
  note I = Suc.IH [OF less_imp_le [OF nN], folded e_def]
  note IH = I [THEN conjunct1]
    I [THEN conjunct2, THEN conjunct1, rule_format]
    I [THEN conjunct2, THEN conjunct2, THEN conjunct1, rule_format]
    I [THEN conjunct2, THEN conjunct2, THEN conjunct2, THEN conjunct1, rule_format]
    I [THEN conjunct2, THEN conjunct2, THEN conjunct2, THEN conjunct2, THEN conjunct1, rule_format]
    I [THEN conjunct2, THEN conjunct2, THEN conjunct2, THEN conjunct2, THEN conjunct2,
       THEN conjunct1, rule_format]
    I [THEN conjunct2, THEN conjunct2, THEN conjunct2, THEN conjunct2, THEN conjunct2,
       THEN conjunct2, rule_format]
  have eg: "imem e g = G" using IH(2) [of g] dist by (simp add: G_def)
  have S: "imem K st = (if n = 0 \<or> G ! n \<noteq> G ! (n - 1)
                         then store_at (imem e st) (G ! n) (int n) else imem e st)"
    unfolding K_def kernIdentifyCellStartEnd_start [OF dist] eg using nN by simp
  have E: "imem K en = (if n = N - 1 \<or> G ! n \<noteq> G ! (n + 1)
                         then store_at (imem e en) (G ! n) (int n + 1) else imem e en)"
    unfolding K_def kernIdentifyCellStartEnd_end [OF dist] eg using nN by simp
  have rn: "0 \<le> G ! n" "nat (G ! n) < length (imem e st)" "nat (G ! n) < length (imem e en)"
    using range [OF nN] by (simp_all add: IH(3))
  have sep_open: "G ! f \<noteq> G ! n" if "f < n" "n = 0 \<or> G ! n \<noteq> G ! (n - 1)" for f
  proof -
    have "G ! f \<le> G ! (n - 1)" using that(1) nN by (intro mono) simp_all
    moreover have "G ! (n - 1) \<le> G ! n" using nN by (intro mono) simp_all
    ultimately show ?thesis using that by auto
  qed
  have sep_close: "G ! l \<noteq> G ! n" if "l < n" "l = N - 1 \<or> G ! l \<noteq> G ! (l + 1)" for l
  proof -
    have "G ! l \<le> G ! (l + 1)" using that(1) nN by (intro mono) simp_all
    moreover have "G ! (l + 1) \<le> G ! n" using that(1) nN by (intro mono) simp_all
    ultimately show ?thesis using that nN by auto
  qed
  have r0: "0 \<le> G ! f" if "f < n" for f using range [of f] that nN by simp
  have Sw: "imem K st ! nat c = (if c = G ! n then int n else imem e st ! nat c)"
    if "n = 0 \<or> G ! n \<noteq> G ! (n - 1)" "0 \<le> c" for c
    unfolding S if_P [OF that(1)] using rn(1,2) that(2) by (rule store_at_nth)
  have Sk: "imem K st = imem e st" if "\<not> (n = 0 \<or> G ! n \<noteq> G ! (n - 1))"
    unfolding S if_not_P [OF that] ..
  have Ew: "imem K en ! nat c = (if c = G ! n then int n + 1 else imem e en ! nat c)"
    if "n = N - 1 \<or> G ! n \<noteq> G ! (n + 1)" "0 \<le> c" for c
    unfolding E if_P [OF that(1)] using rn(1,3) that(2) by (rule store_at_nth)
  have Ek: "imem K en = imem e en" if "\<not> (n = N - 1 \<or> G ! n \<noteq> G ! (n + 1))"
    unfolding E if_not_P [OF that] ..
  show ?case
    unfolding step
  proof (intro conjI allI impI)
    show "vmem K = vmem d"
      by (simp add: K_def kernIdentifyCellStartEnd_frame [OF dist(1,2)] IH(1))
    show "imem K a = imem d a" if "a \<noteq> st" "a \<noteq> en" for a
      using that by (simp add: K_def kernIdentifyCellStartEnd_frame [OF dist(1,2)] IH(2))
    show "length (imem K a) = length (imem d a)" for a
      by (simp add: K_def kernIdentifyCellStartEnd_frame [OF dist(1,2)] IH(3))
    show "imem K st ! nat (G ! f) = int f"
      if "f < Suc n" "f = 0 \<or> G ! f \<noteq> G ! (f - 1)" for f
    proof (cases "f = n")
      case True
      show ?thesis unfolding True using Sw [OF that(2) [unfolded True] rn(1)] by simp
    next
      case False
      then have fn: "f < n" using that by simp
      show ?thesis
      proof (cases "n = 0 \<or> G ! n \<noteq> G ! (n - 1)")
        case op: True
        show ?thesis
          unfolding Sw [OF op r0 [OF fn]] using sep_open [OF fn op] IH(4) [OF fn that(2)] by simp
      next
        case op: False
        show ?thesis unfolding Sk [OF op] by (rule IH(4) [OF fn that(2)])
      qed
    qed
    show "imem K st ! nat c = imem d st ! nat c"
      if c: "0 \<le> c" and no: "\<forall>f<Suc n. (f = 0 \<or> G ! f \<noteq> G ! (f - 1)) \<longrightarrow> G ! f \<noteq> c" for c
    proof -
      have old: "imem e st ! nat c = imem d st ! nat c"
      proof (rule IH(5) [OF c])
        fix f assume "f < n" "f = 0 \<or> G ! f \<noteq> G ! (f - 1)"
        then show "G ! f \<noteq> c" using no [rule_format, of f] by simp
      qed
      show ?thesis
      proof (cases "n = 0 \<or> G ! n \<noteq> G ! (n - 1)")
        case op: True
        have "G ! n \<noteq> c" using no [rule_format, of n] op by simp
        then show ?thesis unfolding Sw [OF op c] using old by simp
      next
        case op: False
        show ?thesis unfolding Sk [OF op] by (rule old)
      qed
    qed
    show "imem K en ! nat (G ! l) = int l + 1"
      if "l < Suc n" "l = N - 1 \<or> G ! l \<noteq> G ! (l + 1)" for l
    proof (cases "l = n")
      case True
      show ?thesis unfolding True using Ew [OF that(2) [unfolded True] rn(1)] by simp
    next
      case False
      then have ln: "l < n" using that by simp
      show ?thesis
      proof (cases "n = N - 1 \<or> G ! n \<noteq> G ! (n + 1)")
        case cl: True
        show ?thesis
          unfolding Ew [OF cl r0 [OF ln]] using sep_close [OF ln that(2)] IH(6) [OF ln that(2)]
          by simp
      next
        case cl: False
        show ?thesis unfolding Ek [OF cl] by (rule IH(6) [OF ln that(2)])
      qed
    qed
    show "imem K en ! nat c = imem d en ! nat c"
      if c: "0 \<le> c" and no: "\<forall>l<Suc n. (l = N - 1 \<or> G ! l \<noteq> G ! (l + 1)) \<longrightarrow> G ! l \<noteq> c" for c
    proof -
      have old: "imem e en ! nat c = imem d en ! nat c"
      proof (rule IH(7) [OF c])
        fix l assume "l < n" "l = N - 1 \<or> G ! l \<noteq> G ! (l + 1)"
        then show "G ! l \<noteq> c" using no [rule_format, of l] by simp
      qed
      show ?thesis
      proof (cases "n = N - 1 \<or> G ! n \<noteq> G ! (n + 1)")
        case cl: True
        have "G ! n \<noteq> c" using no [rule_format, of n] cl by simp
        then show ?thesis unfolding Ew [OF cl c] using old by simp
      next
        case cl: False
        show ?thesis unfolding Ek [OF cl] by (rule old)
      qed
    qed
  qed
qed

text \<open>In an ascending key sequence the positions of one key form an interval, opened
  by the only position that differs from its predecessor and closed by the only one that
  differs from its successor.\<close>

lemma run_of_key:
  fixes G :: "int list"
  assumes mono: "\<And>i j. i \<le> j \<Longrightarrow> j < N \<Longrightarrow> G ! i \<le> G ! j" and i: "i < N"
  obtains f l where "f \<le> i" "i \<le> l" "l < N" "G ! f = G ! i" "G ! l = G ! i"
    "f = 0 \<or> G ! f \<noteq> G ! (f - 1)" "l = N - 1 \<or> G ! l \<noteq> G ! (l + 1)"
    "{j. j < N \<and> G ! j = G ! i} = {f..l}"
proof -
  define f where "f = (LEAST j. G ! j = G ! i)"
  define l where "l = (GREATEST j. j < N \<and> G ! j = G ! i)"
  have f1: "G ! f = G ! i" unfolding f_def by (rule LeastI [of _ i]) simp
  have f2: "f \<le> j" if "G ! j = G ! i" for j unfolding f_def using that by (rule Least_le)
  have bound: "\<forall>j. j < N \<and> G ! j = G ! i \<longrightarrow> j \<le> N" by simp
  have l1: "l < N \<and> G ! l = G ! i"
    unfolding l_def by (rule GreatestI_nat [of _ i N]) (use i in auto)
  have l2: "j \<le> l" if "j < N" "G ! j = G ! i" for j
    unfolding l_def by (rule Greatest_le_nat [of _ j N]) (use that in auto)
  have fi: "f \<le> i" by (rule f2) simp
  have il: "i \<le> l" by (rule l2) (use i in simp_all)
  have opens: "f = 0 \<or> G ! f \<noteq> G ! (f - 1)"
  proof (rule ccontr)
    assume "\<not> ?thesis"
    then have "0 < f" "G ! (f - 1) = G ! i" using f1 by simp_all
    then have "f \<le> f - 1" by (intro f2)
    then show False using \<open>0 < f\<close> by simp
  qed
  have closes: "l = N - 1 \<or> G ! l \<noteq> G ! (l + 1)"
  proof (rule ccontr)
    assume "\<not> ?thesis"
    then have "l + 1 < N" "G ! (l + 1) = G ! i" using l1 by auto
    then have "l + 1 \<le> l" by (intro l2)
    then show False by simp
  qed
  have run: "{j. j < N \<and> G ! j = G ! i} = {f..l}"
  proof (intro set_eqI iffI)
    fix j assume "j \<in> {j. j < N \<and> G ! j = G ! i}"
    then show "j \<in> {f..l}" using f2 l2 by simp
  next
    fix j assume "j \<in> {f..l}"
    then have j: "f \<le> j" "j \<le> l" by simp_all
    have "G ! f \<le> G ! j" using j l1 by (intro mono) simp_all
    moreover have "G ! j \<le> G ! l" using j l1 by (intro mono) simp_all
    ultimately have "G ! j = G ! i" using f1 l1 by simp
    then show "j \<in> {j. j < N \<and> G ! j = G ! i}" using j l1 by simp
  qed
  show thesis using that [OF fi il] l1 f1 opens closes run by blast
qed


lemma kernIdentifyCellStartEnd_idle:
  "N \<le> index \<Longrightarrow> kernIdentifyCellStartEnd N g st en index e = e"
  by (simp add: kernIdentifyCellStartEnd_def)

text \<open>
  C6.  Let the first \<open>N\<close> entries of the cell-id buffer be ascending (each a valid index
  of the two range buffers, the three buffers distinct), and let \<open>start\<close> and \<open>end\<close> be the
  range buffers after the launch of the range builder.  For every position \<open>i\<close> below
  \<open>N\<close>: \<open>start[key[i]] = i\<close> exactly when \<open>i = 0\<close> or \<open>key[i] \<noteq> key[i-1]\<close>, and
  \<open>end[key[i]] = i + 1\<close> exactly when \<open>i = N - 1\<close> or \<open>key[i] \<noteq> key[i+1]\<close>.  For every
  cell id \<open>c\<close> among the keys, \<open>end[c] - start[c]\<close> is the number of positions whose key is
  \<open>c\<close>, and these differences add up to \<open>N\<close>.  A cell id that is no key keeps the old
  content of both slots, and the key buffer is unchanged.
\<close>

theorem kernIdentifyCellStartEnd_ranges:
  fixes N :: nat and g st en :: addr and d :: device
  defines "key \<equiv> imem d g"
    and "d' \<equiv> launch (fullBlocksPerGrid N) (kernIdentifyCellStartEnd N g st en) d"
  assumes dist: "g \<noteq> st" "g \<noteq> en" "st \<noteq> en"
    and len: "N \<le> length (imem d g)"
    and srt: "sorted (take N (imem d g))"
    and range: "\<forall>c \<in> set (take N (imem d g)).
                  0 \<le> c \<and> nat c < length (imem d st) \<and> nat c < length (imem d en)"
  shows "(\<forall>i<N. (imem d' st ! nat (key ! i) = int i \<longleftrightarrow> (i = 0 \<or> key ! i \<noteq> key ! (i - 1))) \<and>
                (imem d' en ! nat (key ! i) = int i + 1 \<longleftrightarrow>
                   (i = N - 1 \<or> key ! i \<noteq> key ! (i + 1)))) \<and>
         (\<forall>c \<in> set (take N key).
            imem d' en ! nat c - imem d' st ! nat c = int (count_list (take N key) c)) \<and>
         (\<Sum>c \<in> set (take N key). imem d' en ! nat c - imem d' st ! nat c) = int N \<and>
         (\<forall>c\<ge>0. c \<notin> set (take N key) \<longrightarrow>
            imem d' st ! nat c = imem d st ! nat c \<and> imem d' en ! nat c = imem d en ! nat c) \<and>
         imem d' g = key"
proof -
  have d': "d' = fold (kernIdentifyCellStartEnd N g st en) [0..<N] d"
    unfolding d'_def by (rule launch_active) (rule kernIdentifyCellStartEnd_idle)
  have tk: "take N key ! i = key ! i" if "i < N" for i using that by simp
  have ltk: "length (take N key) = N" using len by (simp add: key_def)
  have mono: "key ! i \<le> key ! j" if "i \<le> j" "j < N" for i j
    using sorted_nth_mono [OF srt, of i j] that len by (simp add: key_def)
  have inset: "key ! i \<in> set (take N key)" if "i < N" for i
    using that ltk tk by (metis nth_mem)
  have rng: "0 \<le> key ! i \<and> nat (key ! i) < length (imem d st) \<and>
             nat (key ! i) < length (imem d en)" if "i < N" for i
    using range inset [OF that] by (simp add: key_def)
  have mono': "\<forall>i j. i \<le> j \<longrightarrow> j < N \<longrightarrow> key ! i \<le> key ! j" using mono by blast
  have rng': "\<forall>i<N. 0 \<le> key ! i \<and> nat (key ! i) < length (imem d st) \<and>
             nat (key ! i) < length (imem d en)" using rng by blast
  note I = fold_kernIdentifyCellStartEnd [OF dist, of N d N, folded key_def d', OF mono' rng' order_refl]
  note S_open = I [THEN conjunct2, THEN conjunct2, THEN conjunct2, THEN conjunct1, rule_format]
  note S_keep = I [THEN conjunct2, THEN conjunct2, THEN conjunct2, THEN conjunct2, THEN conjunct1,
                   rule_format]
  note E_close = I [THEN conjunct2, THEN conjunct2, THEN conjunct2, THEN conjunct2, THEN conjunct2,
                    THEN conjunct1, rule_format]
  note E_keep = I [THEN conjunct2, THEN conjunct2, THEN conjunct2, THEN conjunct2, THEN conjunct2,
                   THEN conjunct2, rule_format]
  have keys: "imem d' g = key"
    using I [THEN conjunct2, THEN conjunct1, rule_format, of g] dist by (simp add: key_def)
  text \<open>What the two slots of the key at position \<open>i\<close> hold.\<close>
  have slots: thesis
    if i: "i < N"
      and rule: "\<And>f l. f \<le> i \<Longrightarrow> i \<le> l \<Longrightarrow> l < N \<Longrightarrow>
        (f = i \<longleftrightarrow> (i = 0 \<or> key ! i \<noteq> key ! (i - 1))) \<Longrightarrow>
        (l = i \<longleftrightarrow> (i = N - 1 \<or> key ! i \<noteq> key ! (i + 1))) \<Longrightarrow>
        imem d' st ! nat (key ! i) = int f \<Longrightarrow> imem d' en ! nat (key ! i) = int l + 1 \<Longrightarrow>
        {j. j < N \<and> key ! j = key ! i} = {f..l} \<Longrightarrow> thesis"
    for i thesis
  proof -
    obtain f l where fl: "f \<le> i" "i \<le> l" "l < N" "key ! f = key ! i" "key ! l = key ! i"
      "f = 0 \<or> key ! f \<noteq> key ! (f - 1)" "l = N - 1 \<or> key ! l \<noteq> key ! (l + 1)"
      "{j. j < N \<and> key ! j = key ! i} = {f..l}"
      using run_of_key [of N key i] mono i by blast
    have fN: "f < N" using fl by simp
    have s: "imem d' st ! nat (key ! i) = int f"
      using S_open [OF fN fl(6)] fl(4) by simp
    have e: "imem d' en ! nat (key ! i) = int l + 1"
      using E_close [OF fl(3) fl(7)] fl(5) by simp
    have a: "f = i \<longleftrightarrow> (i = 0 \<or> key ! i \<noteq> key ! (i - 1))"
    proof
      assume "f = i" then show "i = 0 \<or> key ! i \<noteq> key ! (i - 1)" using fl(6) by simp
    next
      assume op: "i = 0 \<or> key ! i \<noteq> key ! (i - 1)"
      show "f = i"
      proof (rule ccontr)
        assume "f \<noteq> i"
        then have "f \<le> i - 1" "0 < i" using fl(1) by simp_all
        then have "i - 1 \<in> {f..l}" using fl(2) by simp
        then have "key ! (i - 1) = key ! i" unfolding fl(8) [symmetric] by simp
        then show False using op \<open>0 < i\<close> by simp
      qed
    qed
    have b: "l = i \<longleftrightarrow> (i = N - 1 \<or> key ! i \<noteq> key ! (i + 1))"
    proof
      assume "l = i" then show "i = N - 1 \<or> key ! i \<noteq> key ! (i + 1)" using fl(7) by simp
    next
      assume cl: "i = N - 1 \<or> key ! i \<noteq> key ! (i + 1)"
      show "l = i"
      proof (rule ccontr)
        assume "l \<noteq> i"
        then have "i + 1 \<le> l" using fl(2) by simp
        then have "i + 1 \<in> {f..l}" using fl(1) by simp
        then have "key ! (i + 1) = key ! i" "i + 1 < N" unfolding fl(8) [symmetric] by simp_all
        then show False using cl by auto
      qed
    qed
    show ?thesis
      by (rule rule [OF fl(1-3) a b s e fl(8)])
  qed
  have iff: "(imem d' st ! nat (key ! i) = int i \<longleftrightarrow> (i = 0 \<or> key ! i \<noteq> key ! (i - 1))) \<and>
             (imem d' en ! nat (key ! i) = int i + 1 \<longleftrightarrow> (i = N - 1 \<or> key ! i \<noteq> key ! (i + 1)))"
    if iN: "i < N" for i
  proof -
    obtain f l where fl: "f \<le> i" "i \<le> l" "l < N"
      "f = i \<longleftrightarrow> (i = 0 \<or> key ! i \<noteq> key ! (i - 1))"
      "l = i \<longleftrightarrow> (i = N - 1 \<or> key ! i \<noteq> key ! (i + 1))"
      "imem d' st ! nat (key ! i) = int f" "imem d' en ! nat (key ! i) = int l + 1"
      "{j. j < N \<and> key ! j = key ! i} = {f..l}"
      by (rule slots [OF iN])
    show ?thesis unfolding fl(6,7) using fl(4,5) by simp
  qed
  have count: "imem d' en ! nat c - imem d' st ! nat c = int (count_list (take N key) c)"
    if c: "c \<in> set (take N key)" for c
  proof -
    obtain i where i: "i < N" "c = key ! i"
      using c ltk tk by (metis in_set_conv_nth)
    obtain f l where fl: "f \<le> i" "i \<le> l" "l < N"
      "f = i \<longleftrightarrow> (i = 0 \<or> key ! i \<noteq> key ! (i - 1))"
      "l = i \<longleftrightarrow> (i = N - 1 \<or> key ! i \<noteq> key ! (i + 1))"
      "imem d' st ! nat (key ! i) = int f" "imem d' en ! nat (key ! i) = int l + 1"
      "{j. j < N \<and> key ! j = key ! i} = {f..l}"
      by (rule slots [OF i(1)])
    have "count_list (take N key) c = card {j. j < length (take N key) \<and> c = take N key ! j}"
      by (simp add: count_list_eq_length_filter length_filter_conv_card)
    also have "{j. j < length (take N key) \<and> c = take N key ! j} = {j. j < N \<and> key ! j = key ! i}"
      using ltk tk i(2) by auto
    also have "card \<dots> = l + 1 - f" unfolding fl(8) by simp
    finally show ?thesis using fl(1,2,6,7) i(2) by simp
  qed
  have total: "(\<Sum>c \<in> set (take N key). imem d' en ! nat c - imem d' st ! nat c) = int N"
  proof -
    have "(\<Sum>c \<in> set (take N key). imem d' en ! nat c - imem d' st ! nat c)
        = (\<Sum>c \<in> set (take N key). int (count_list (take N key) c))"
      by (rule sum.cong) (simp_all add: count)
    also have "\<dots> = int (\<Sum>c \<in> set (take N key). count_list (take N key) c)" by simp
    also have "(\<Sum>c \<in> set (take N key). count_list (take N key) c) = length (take N key)"
      by (rule sum_count_set) simp_all
    finally show ?thesis unfolding ltk .
  qed
  have keep: "imem d' st ! nat c = imem d st ! nat c \<and> imem d' en ! nat c = imem d en ! nat c"
    if "0 \<le> c" "c \<notin> set (take N key)" for c
  proof
    have no: "key ! j \<noteq> c" if "j < N" for j using inset [OF that] \<open>c \<notin> set (take N key)\<close> by auto
    show "imem d' st ! nat c = imem d st ! nat c" by (rule S_keep [OF that(1)]) (rule no)
    show "imem d' en ! nat c = imem d en ! nat c" by (rule E_keep [OF that(1)]) (rule no)
  qed
  show ?thesis
    by (intro conjI allI impI ballI iff count total keys keep [THEN conjunct1] keep [THEN conjunct2])
qed


theorem kernIdentifyCellStartEnd_ranges_witness:
  "(let d' = launch (fullBlocksPerGrid 4) (kernIdentifyCellStartEnd 4 2 3 4)
               \<lparr>vmem = (\<lambda>a. []),
                imem = (\<lambda>a. [])(2 := [1, 1, 2, 4], 3 := [- 1, - 1, - 1, - 1, - 1],
                                  4 := [- 1, - 1, - 1, - 1, - 1])\<rparr>
    in imem d' 3 ! 1 = 0 \<and> imem d' 4 ! 1 = 2 \<and> imem d' 3 ! 2 = 2 \<and> imem d' 4 ! 2 = 3 \<and>
       imem d' 3 ! 4 = 3 \<and> imem d' 4 ! 4 = 4 \<and> imem d' 3 ! 3 = - 1 \<and> imem d' 4 ! 3 = - 1 \<and>
       imem d' 3 ! 0 = - 1 \<and> imem d' 4 ! 0 = - 1)"
proof -
  define d0 where "d0 = \<lparr>vmem = (\<lambda>a::addr. ([]::vec3 list)),
                imem = (\<lambda>a. [])(2 := [1, 1, 2, 4], 3 := [- 1, - 1, - 1, - 1, - 1],
                                  4 := [- 1, - 1, - 1, - 1, - 1])\<rparr>"
  define d' where "d' = launch (fullBlocksPerGrid 4) (kernIdentifyCellStartEnd 4 2 3 4) d0"
  have b: "imem d0 2 = [1, 1, 2, 4]" "imem d0 3 = [- 1, - 1, - 1, - 1, - 1]"
    "imem d0 4 = [- 1, - 1, - 1, - 1, - 1]"
    by (simp_all add: d0_def)
  have h: "(2::addr) \<noteq> 3" "(2::addr) \<noteq> 4" "(3::addr) \<noteq> 4" "4 \<le> length (imem d0 2)"
    "sorted (take 4 (imem d0 2))"
    "\<forall>c \<in> set (take 4 (imem d0 2)).
        0 \<le> c \<and> nat c < length (imem d0 3) \<and> nat c < length (imem d0 4)"
    by (simp_all add: b)
  note T = kernIdentifyCellStartEnd_ranges [OF h, folded d'_def, unfolded b]
  note at = T [THEN conjunct1, rule_format]
  note keep = T [THEN conjunct2, THEN conjunct2, THEN conjunct2, THEN conjunct1, rule_format]
  have "imem d' 3 ! 1 = 0" using at [of 0] by simp
  moreover have "imem d' 4 ! 1 = 2" using at [of 1] by simp
  moreover have "imem d' 3 ! 2 = 2 \<and> imem d' 4 ! 2 = 3" using at [of 2] by simp
  moreover have "imem d' 3 ! 4 = 3 \<and> imem d' 4 ! 4 = 4" using at [of 3] by simp
  moreover have "imem d' 3 ! 3 = - 1 \<and> imem d' 4 ! 3 = - 1" using keep [of 3] by simp
  moreover have "imem d' 3 ! 0 = - 1 \<and> imem d' 4 ! 0 = - 1" using keep [of 0] by simp
  ultimately show ?thesis unfolding Let_def d'_def d0_def by simp
qed

subsection \<open>A particle without neighbours\<close>

text \<open>With no neighbour in reach the accumulator of rule 1 stays zero and the count
  stays 0; the division is skipped, the subtraction of the own position is not.\<close>

lemma rule1_fold_isolated:
  assumes "\<forall>i<n. i \<noteq> iSelf \<longrightarrow> \<not> vlength (vsub (pos ! iSelf) (pos ! i)) < rule1Distance"
  shows "fold (\<lambda>i (rule1, count).
                    if i = iSelf then (rule1, count)
                    else if vlength (vsub (pos ! iSelf) (pos ! i)) < rule1Distance
                      then (vadd rule1 (pos ! i), count + (1::int))
                      else (rule1, count))
                 [0..<n] acc = acc"
  using assms by (induction n) (auto split: prod.splits)

lemma kernUpdateVelocityRule1_isolated:
  assumes "\<forall>i<N. i \<noteq> iSelf \<longrightarrow> \<not> vlength (vsub (pos ! iSelf) (pos ! i)) < rule1Distance"
  shows "kernUpdateVelocityRule1 N iSelf pos = vscale (vsub vzero (pos ! iSelf)) rule1Scale"
  unfolding kernUpdateVelocityRule1_def rule1_fold_isolated [OF assms] by simp

text \<open>
  C2.  One particle alone in the scene, at \<open>(10, 0, 0)\<close> with velocity zero.  No other
  particle exists, so none is within a rule distance; yet rule 1 contributes
  \<open>(0 - position) * rule1Scale = (-1/10, 0, 0)\<close>, and the brute-force launch stores
  \<open>(-1/10, 0, 0)\<close> as the next velocity, which is not the current velocity.  The final
  combination of the two grid kernels does the same on empty accumulators.
\<close>

theorem isolated_particle_drifts_to_origin:
  "kernUpdateVelocityRule1 1 0 [Vec3 10 0 0] = Vec3 (- 1 / 10) 0 0 \<and>
   kernUpdateVelocityRule2 1 0 [Vec3 10 0 0] = Vec3 0 0 0 \<and>
   kernUpdateVelocityRule3 1 0 [Vec3 10 0 0] [Vec3 0 0 0] = Vec3 0 0 0 \<and>
   vmem (launch (fullBlocksPerGrid 1) (kernUpdateVelocityBruteForce 1 0 1 2)
      \<lparr>vmem = (\<lambda>a. [Vec3 0 0 0])(0 := [Vec3 10 0 0]), imem = (\<lambda>a. [])\<rparr>) 2 ! 0
     = Vec3 (- 1 / 10) 0 0 \<and>
   combineRules (vzero, 0, vzero, vzero, 0) (Vec3 10 0 0) (Vec3 0 0 0) = Vec3 (- 1 / 10) 0 0"
proof -
  have r1: "kernUpdateVelocityRule1 1 0 [Vec3 10 0 0] = Vec3 (- 1 / 10) 0 0"
    by (simp add: kernUpdateVelocityRule1_def vec_defs rule1Scale_def)
  have r2: "kernUpdateVelocityRule2 1 0 [Vec3 10 0 0] = Vec3 0 0 0"
    by (simp add: kernUpdateVelocityRule2_def vec_defs)
  have r3: "kernUpdateVelocityRule3 1 0 [Vec3 10 0 0] [Vec3 0 0 0] = Vec3 0 0 0"
    by (simp add: kernUpdateVelocityRule3_def vec_defs)
  have c: "computeVelocityChange 1 0 [Vec3 10 0 0] [Vec3 0 0 0] = Vec3 (- 1 / 10) 0 0"
    unfolding computeVelocityChange_def r1 r2 r3
    by (simp add: Let_def vec_defs vlength_def maxSpeed_def)
  have l: "vmem (launch (fullBlocksPerGrid 1) (kernUpdateVelocityBruteForce 1 0 1 2)
      \<lparr>vmem = (\<lambda>a. [Vec3 0 0 0])(0 := [Vec3 10 0 0]), imem = (\<lambda>a. [])\<rparr>) 2 ! 0
     = computeVelocityChange 1 0 [Vec3 10 0 0] [Vec3 0 0 0]"
    using launch_kernUpdateVelocityBruteForce(4) [of 2 0 1 0 1
       "\<lparr>vmem = (\<lambda>a. [Vec3 0 0 0])(0 := [Vec3 10 0 0]), imem = (\<lambda>a. [])\<rparr>"]
    by simp
  have g: "combineRules (vzero, 0, vzero, vzero, 0) (Vec3 10 0 0) (Vec3 0 0 0) = Vec3 (- 1 / 10) 0 0"
    by (simp add: combineRules_def vec_defs rule1Scale_def rule2Scale_def rule3Scale_def
          vlength_def maxSpeed_def real_sqrt_abs2)
  show ?thesis using r1 r2 r3 l c g by simp
qed

subsection \<open>The reset of an \<^verbatim>\<open>int\<close> buffer\<close>

lemma replicate_drop_update:
  "k < length xs \<Longrightarrow> (replicate k v @ drop k xs)[k := v] = replicate (Suc k) v @ drop (Suc k) xs"
  by (simp add: list_update_append replicate_append_same Cons_nth_drop_Suc [symmetric]
        upd_conv_take_nth_drop)

lemma kernResetIntBuffer_frame:
  "vmem (kernResetIntBuffer n buf v index d) = vmem d"
  "a \<noteq> buf \<Longrightarrow> imem (kernResetIntBuffer n buf v index d) a = imem d a"
  "imem (kernResetIntBuffer n buf v index d) buf
     = (if index < n then (imem d buf)[index := v] else imem d buf)"
  by (simp_all add: kernResetIntBuffer_def)

lemma fold_kernResetIntBuffer:
  assumes "k \<le> n" "n \<le> length (imem d buf)"
  shows "vmem (fold (kernResetIntBuffer n buf v) [0..<k] d) = vmem d \<and>
     (\<forall>a. a \<noteq> buf \<longrightarrow> imem (fold (kernResetIntBuffer n buf v) [0..<k] d) a = imem d a) \<and>
     imem (fold (kernResetIntBuffer n buf v) [0..<k] d) buf = replicate k v @ drop k (imem d buf)"
  using assms(1)
proof (induction k)
  case 0
  show ?case by simp
next
  case (Suc k)
  then have k: "k < n" "k < length (imem d buf)" using assms(2) by simp_all
  define e where "e = fold (kernResetIntBuffer n buf v) [0..<k] d"
  note I = Suc.IH [OF less_imp_le [OF k(1)], folded e_def]
  have step: "fold (kernResetIntBuffer n buf v) [0..<Suc k] d = kernResetIntBuffer n buf v k e"
    by (simp add: e_def)
  show ?case
    unfolding step kernResetIntBuffer_frame(1) kernResetIntBuffer_frame(3)
    using I k by (simp add: kernResetIntBuffer_frame(2) replicate_drop_update)
qed

lemma launch_kernResetIntBuffer:
  assumes "length (imem d buf) = n"
  shows "vmem (launch (fullBlocksPerGrid n) (kernResetIntBuffer n buf v) d) = vmem d"
    and "a \<noteq> buf \<Longrightarrow> imem (launch (fullBlocksPerGrid n) (kernResetIntBuffer n buf v) d) a = imem d a"
    and "imem (launch (fullBlocksPerGrid n) (kernResetIntBuffer n buf v) d) buf = replicate n v"
proof -
  have l: "launch (fullBlocksPerGrid n) (kernResetIntBuffer n buf v) d
      = fold (kernResetIntBuffer n buf v) [0..<n] d"
    by (rule launch_active) (simp add: kernResetIntBuffer_def)
  note F = fold_kernResetIntBuffer [of n n d buf v, folded l]
  show "vmem (launch (fullBlocksPerGrid n) (kernResetIntBuffer n buf v) d) = vmem d"
    "a \<noteq> buf \<Longrightarrow> imem (launch (fullBlocksPerGrid n) (kernResetIntBuffer n buf v) d) a = imem d a"
    "imem (launch (fullBlocksPerGrid n) (kernResetIntBuffer n buf v) d) buf = replicate n v"
    using F assms by simp_all
qed

subsection \<open>The three strategies on the scene of two particles\<close>

lemma sort_by_key_int_fields:
  assumes "srt (take n (imem d keys)) (take n (imem d vals)) = (ks, vs)" "keys \<noteq> vals"
  shows "vmem (sort_by_key_int srt keys n vals d) = vmem d"
    and "imem (sort_by_key_int srt keys n vals d) keys = ks @ drop n (imem d keys)"
    and "imem (sort_by_key_int srt keys n vals d) vals = vs @ drop n (imem d vals)"
    and "a \<noteq> keys \<Longrightarrow> a \<noteq> vals \<Longrightarrow> imem (sort_by_key_int srt keys n vals d) a = imem d a"
  using assms by (simp_all add: sort_by_key_int_def Let_def)

lemma sort_by_key_vec_fields:
  assumes "srt (take n (imem d keys)) (take n (vmem d vals)) = (ks, vs)"
  shows "vmem (sort_by_key_vec srt keys n vals d) vals = vs @ drop n (vmem d vals)"
    and "a \<noteq> vals \<Longrightarrow> vmem (sort_by_key_vec srt keys n vals d) a = vmem d a"
    and "imem (sort_by_key_vec srt keys n vals d) keys = ks @ drop n (imem d keys)"
    and "b \<noteq> keys \<Longrightarrow> imem (sort_by_key_vec srt keys n vals d) b = imem d b"
  using assms by (simp_all add: sort_by_key_vec_def)

lemma cudaMemcpy_int_fields:
  "vmem (cudaMemcpy_int dst src n d) = vmem d"
  "imem (cudaMemcpy_int dst src n d) dst = take n (imem d src) @ drop n (imem d dst)"
  "a \<noteq> dst \<Longrightarrow> imem (cudaMemcpy_int dst src n d) a = imem d a"
  by (simp_all add: cudaMemcpy_int_def)

lemma list2_eq: "length xs = 2 \<Longrightarrow> xs ! 0 = a \<Longrightarrow> xs ! 1 = b \<Longrightarrow> xs = [a, b]"
  by (cases xs; cases "tl xs") auto

lemma two_boids_fields:
  "numObjects two_boids = 2" "dev_pos two_boids = 10" "dev_vel1 two_boids = 11"
  "dev_vel2 two_boids = 12" "dev_particleArrayIndices two_boids = 20"
  "dev_particleGridIndices two_boids = 21" "dev_gridCellStartIndices two_boids = 22"
  "dev_gridCellEndIndices two_boids = 23" "dev_particleGridIndicesPosSort two_boids = 24"
  "dev_particleGridIndicesVelSort two_boids = 25"
  "vmem (mem two_boids) 10 = [Vec3 0 0 0, Vec3 1 0 0]"
  "vmem (mem two_boids) 11 = [Vec3 0 0 0, Vec3 0 0 0]"
  "vmem (mem two_boids) 12 = [Vec3 0 0 0, Vec3 0 0 0]"
  "imem (mem two_boids) 20 = [0, 0]" "imem (mem two_boids) 21 = [0, 0]"
  "imem (mem two_boids) 22 = replicate (nat gridCellCount) 0"
  "imem (mem two_boids) 23 = replicate (nat gridCellCount) 0"
  "imem (mem two_boids) 24 = [0, 0]" "imem (mem two_boids) 25 = [0, 0]"
  by (simp_all add: two_boids_def)

text \<open>The labelling stage on the two particles: both lie in cell \<open>(11, 11, 11)\<close>, whose
  id is 5577.\<close>

lemma two_boids_labelled:
  fixes d :: device
  assumes "vmem d 10 = [Vec3 0 0 0, Vec3 1 0 0]" "length (imem d 20) = 2" "length (imem d 21) = 2"
  defines "e \<equiv> launch (fullBlocksPerGrid 2)
       (kernComputeIndices 2 gridSideCount gridMinimum gridInverseCellWidth 10 20 21) d"
  shows "vmem e = vmem d" "imem e 20 = [0, 1]" "imem e 21 = [5577, 5577]"
    "\<And>a. a \<noteq> 20 \<Longrightarrow> a \<noteq> 21 \<Longrightarrow> imem e a = imem d a"
proof -
  have ne: "(20::addr) \<noteq> 21" by simp
  note L = launch_kernComputeIndices [OF ne, where N = 2 and res = gridSideCount
             and gmin = gridMinimum and icw = gridInverseCellWidth and pos = 10 and d = d]
  show "vmem e = vmem d" unfolding e_def by (rule L(1))
  show "imem e a = imem d a" if "a \<noteq> 20" "a \<noteq> 21" for a
    unfolding e_def using that by (rule L(2))
  show "imem e 20 = [0, 1]"
    unfolding e_def
    by (rule list2_eq) (simp_all add: L(3) L(5) assms del: One_nat_def)
  show "imem e 21 = [5577, 5577]"
    unfolding e_def
  proof (rule list2_eq)
    show "length (imem (launch (fullBlocksPerGrid 2) (kernComputeIndices 2 gridSideCount
        gridMinimum gridInverseCellWidth 10 20 21) d) 21) = 2"
      by (simp add: L(3) assms)
    show "imem (launch (fullBlocksPerGrid 2) (kernComputeIndices 2 gridSideCount
        gridMinimum gridInverseCellWidth 10 20 21) d) 21 ! 0 = 5577"
      by (subst L(4)) (simp_all add: assms grid_params gridIndex3Dto1D_def float2int_def)
    show "imem (launch (fullBlocksPerGrid 2) (kernComputeIndices 2 gridSideCount
        gridMinimum gridInverseCellWidth 10 20 21) d) 21 ! 1 = 5577"
      by (subst L(4)) (simp_all add: assms grid_params gridIndex3Dto1D_def float2int_def)
  qed
qed


lemma upt_0_2: "[0..<2] = [0, 1]"
  by (simp add: numeral_2_eq_2)

text \<open>The range builder on two particles of cell 5577, after the reset.\<close>

lemma two_boids_ranged:
  fixes d :: device
  assumes "imem d 21 = [5577, 5577]" "imem d 22 = replicate (nat gridCellCount) (- 1)"
    "imem d 23 = replicate (nat gridCellCount) (- 1)"
  defines "e \<equiv> launch (fullBlocksPerGrid 2) (kernIdentifyCellStartEnd 2 21 22 23) d"
  shows "vmem e = vmem d"
    "imem e 22 = (replicate (nat gridCellCount) (- 1))[5577 := 0]"
    "imem e 23 = (replicate (nat gridCellCount) (- 1))[5577 := 2]"
    "\<And>a. a \<noteq> 22 \<Longrightarrow> a \<noteq> 23 \<Longrightarrow> imem e a = imem d a"
proof -
  have dist: "(21::addr) \<noteq> 22" "(21::addr) \<noteq> 23" "(22::addr) \<noteq> 23" by simp_all
  have e: "e = kernIdentifyCellStartEnd 2 21 22 23 1 (kernIdentifyCellStartEnd 2 21 22 23 0 d)"
    unfolding e_def
    by (subst launch_active) (simp_all add: kernIdentifyCellStartEnd_def upt_0_2)
  note fr = kernIdentifyCellStartEnd_frame [OF dist(1,2)]
  have k: "imem (kernIdentifyCellStartEnd 2 21 22 23 0 d) 21 = [5577, 5577]"
    using fr(2) [of 21 2 0 d] assms(1) by simp
  show "vmem e = vmem d" unfolding e by (simp add: fr)
  show "imem e a = imem d a" if "a \<noteq> 22" "a \<noteq> 23" for a
    unfolding e using that by (simp add: fr)
  show "imem e 22 = (replicate (nat gridCellCount) (- 1))[5577 := 0]"
    unfolding e kernIdentifyCellStartEnd_start [OF dist] k
    by (simp add: assms store_at_def)
  show "imem e 23 = (replicate (nat gridCellCount) (- 1))[5577 := 2]"
    unfolding e kernIdentifyCellStartEnd_end [OF dist] k
    by (simp add: assms store_at_def)
qed

lemma stable_sort_two_equal:
  "sort_via stable_perm [5577, 5577] [a, b] = ([5577, 5577], [a, b])"
  by (simp add: sort_via_def stable_perm_def upt_0_2)


lemma candidate_cells_two_boids:
  "neighbor_cell_vec 10 10 10 22 = [5070, 5071, 5092, 5093, 5554, 5555, 5576, 5577]"
  by (simp add: neighbor_cell_vec_def gridIndex3Dto1D_def)


text \<open>One thread of each grid kernel on the two particles, with the ranges as built:
  the only populated candidate cell is 5577 with the range from 0 to 2, and the test
  \<open>cellStart > 0\<close> passes it over.\<close>

lemma scattered_thread_two_boids:
  fixes d :: device
  assumes "vmem d 10 = [Vec3 0 0 0, Vec3 1 0 0]" "vmem d 11 = [Vec3 0 0 0, Vec3 0 0 0]"
    "imem d 20 = [0, 1]"
    "imem d 22 = (replicate (nat gridCellCount) (- 1))[5577 := 0]"
    "imem d 23 = (replicate (nat gridCellCount) (- 1))[5577 := 2]"
  defines "K \<equiv> kernUpdateVelNeighborSearchScattered 2 gridSideCount gridMinimum
                   gridInverseCellWidth gridCellWidth 22 23 20 10 11 12"
  shows "vmem (K 0 d) 12 = (vmem d 12)[0 := Vec3 0 0 0]"
    and "vmem (K 1 d) 12 = (vmem d 12)[1 := Vec3 (- 1 / 100) 0 0]"
  unfolding K_def kernUpdateVelNeighborSearchScattered_def
  by (simp_all add: assms(1-5) Let_def grid_params float2int_def fmod_def
        candidate_cells_two_boids combineRules_def vec_defs vlength_def store_at_def
        rule1Scale_def rule2Scale_def rule3Scale_def maxSpeed_def)


lemma kernUpdateVelNeighborSearchScattered_frame:
  "imem (kernUpdateVelNeighborSearchScattered N res gmin icw cw st en idx pos vel1 vel2 index d)
     = imem d"
  "a \<noteq> vel2 \<Longrightarrow>
   vmem (kernUpdateVelNeighborSearchScattered N res gmin icw cw st en idx pos vel1 vel2 index d) a
     = vmem d a"
  "length (vmem (kernUpdateVelNeighborSearchScattered N res gmin icw cw st en idx pos vel1 vel2
      index d) a) = length (vmem d a)"
  unfolding kernUpdateVelNeighborSearchScattered_def Let_def
  by (simp_all add: length_store_at)

lemma kernUpdateVelNeighborSearchCoherent_frame:
  "imem (kernUpdateVelNeighborSearchCoherent N res gmin icw cw st en pos vel1 vel2 index d)
     = imem d"
  "a \<noteq> vel2 \<Longrightarrow>
   vmem (kernUpdateVelNeighborSearchCoherent N res gmin icw cw st en pos vel1 vel2 index d) a
     = vmem d a"
  "length (vmem (kernUpdateVelNeighborSearchCoherent N res gmin icw cw st en pos vel1 vel2
      index d) a) = length (vmem d a)"
  unfolding kernUpdateVelNeighborSearchCoherent_def Let_def
  by simp_all


lemma cells_two_boids: "nat gridCellCount = 10648"
  by (simp add: grid_params)

text \<open>The scattered pipeline on the two particles, up to the cell ranges.\<close>

lemma two_boids_scatteredGridRanges:
  defines "d \<equiv> scatteredGridRanges (sort_via stable_perm) two_boids"
  shows "vmem d = vmem (mem two_boids)" "imem d 20 = [0, 1]" "imem d 21 = [5577, 5577]"
    "imem d 22 = (replicate (nat gridCellCount) (- 1))[5577 := 0]"
    "imem d 23 = (replicate (nat gridCellCount) (- 1))[5577 := 2]"
proof -
  define d1 where "d1 = launch (fullBlocksPerGrid (nat gridCellCount))
     (kernResetIntBuffer (nat gridCellCount) 22 (- 1)) (mem two_boids)"
  define d2 where "d2 = launch (fullBlocksPerGrid (nat gridCellCount))
     (kernResetIntBuffer (nat gridCellCount) 23 (- 1)) d1"
  define d3 where "d3 = launch (fullBlocksPerGrid 2)
     (kernComputeIndices 2 gridSideCount gridMinimum gridInverseCellWidth 10 20 21) d2"
  define d4 where "d4 = sort_by_key_int (sort_via stable_perm) 21 2 20 d3"
  have d: "d = launch (fullBlocksPerGrid 2) (kernIdentifyCellStartEnd 2 21 22 23) d4"
    by (simp add: d_def scatteredGridRanges_def two_boids_fields Let_def
          d1_def d2_def d3_def d4_def)
  have 1: "vmem d1 = vmem (mem two_boids)" "imem d1 22 = replicate (nat gridCellCount) (- 1)"
    "\<And>a. a \<noteq> 22 \<Longrightarrow> imem d1 a = imem (mem two_boids) a"
    unfolding d1_def by (simp_all add: launch_kernResetIntBuffer two_boids_fields)
  have 2: "vmem d2 = vmem (mem two_boids)" "imem d2 22 = replicate (nat gridCellCount) (- 1)"
    "imem d2 23 = replicate (nat gridCellCount) (- 1)"
    "\<And>a. a \<noteq> 22 \<Longrightarrow> a \<noteq> 23 \<Longrightarrow> imem d2 a = imem (mem two_boids) a"
    unfolding d2_def by (simp_all add: launch_kernResetIntBuffer 1 two_boids_fields)
  have 3: "vmem d3 = vmem (mem two_boids)" "imem d3 20 = [0, 1]" "imem d3 21 = [5577, 5577]"
    "imem d3 22 = replicate (nat gridCellCount) (- 1)"
    "imem d3 23 = replicate (nat gridCellCount) (- 1)"
    unfolding d3_def
    using two_boids_labelled [of d2] by (simp_all add: 2 two_boids_fields)
  have s: "sort_via stable_perm (take 2 (imem d3 21)) (take 2 (imem d3 20))
         = ([5577, 5577], [0, 1])"
    by (simp add: 3 stable_sort_two_equal)
  have 4: "vmem d4 = vmem (mem two_boids)" "imem d4 20 = [0, 1]" "imem d4 21 = [5577, 5577]"
    "imem d4 22 = replicate (nat gridCellCount) (- 1)"
    "imem d4 23 = replicate (nat gridCellCount) (- 1)"
    unfolding d4_def
    by (simp_all add: sort_by_key_int_fields [where srt = "sort_via stable_perm" and keys = 21
          and vals = 20 and n = 2 and d = d3, OF s] 3)
  show "vmem d = vmem (mem two_boids)" "imem d 20 = [0, 1]" "imem d 21 = [5577, 5577]"
    "imem d 22 = (replicate (nat gridCellCount) (- 1))[5577 := 0]"
    "imem d 23 = (replicate (nat gridCellCount) (- 1))[5577 := 2]"
    unfolding d using two_boids_ranged [of d4] by (simp_all add: 4)
qed


lemma list2_updates: "length xs = 2 \<Longrightarrow> xs[0 := a, 1 := b] = [a, b]"
  by (cases xs; cases "tl xs") auto

lemma coherent_thread_two_boids:
  fixes d :: device
  assumes "vmem d 10 = [Vec3 0 0 0, Vec3 1 0 0]" "vmem d 11 = [Vec3 0 0 0, Vec3 0 0 0]"
    "imem d 22 = (replicate (nat gridCellCount) (- 1))[5577 := 0]"
    "imem d 23 = (replicate (nat gridCellCount) (- 1))[5577 := 2]"
  defines "K \<equiv> kernUpdateVelNeighborSearchCoherent 2 gridSideCount gridMinimum
                   gridInverseCellWidth gridCellWidth 22 23 10 11 12"
  shows "vmem (K 0 d) 12 = (vmem d 12)[0 := Vec3 0 0 0]"
    and "vmem (K 1 d) 12 = (vmem d 12)[1 := Vec3 (- 1 / 100) 0 0]"
  unfolding K_def kernUpdateVelNeighborSearchCoherent_def
  by (simp_all add: assms(1-4) Let_def grid_params float2int_def fmod_def
        candidate_cells_two_boids combineRules_def vec_defs vlength_def
        rule1Scale_def rule2Scale_def rule3Scale_def maxSpeed_def)

lemma kernUpdateVelNeighborSearchScattered_idle:
  "N \<le> index \<Longrightarrow>
   kernUpdateVelNeighborSearchScattered N res gmin icw cw st en idx pos vel1 vel2 index d = d"
  by (simp add: kernUpdateVelNeighborSearchScattered_def)

lemma kernUpdateVelNeighborSearchCoherent_idle:
  "N \<le> index \<Longrightarrow>
   kernUpdateVelNeighborSearchCoherent N res gmin icw cw st en pos vel1 vel2 index d = d"
  by (simp add: kernUpdateVelNeighborSearchCoherent_def)

lemma two_boids_scattered_velocity:
  fixes d :: device
  assumes "vmem d 10 = [Vec3 0 0 0, Vec3 1 0 0]" "vmem d 11 = [Vec3 0 0 0, Vec3 0 0 0]"
    "imem d 20 = [0, 1]"
    "imem d 22 = (replicate (nat gridCellCount) (- 1))[5577 := 0]"
    "imem d 23 = (replicate (nat gridCellCount) (- 1))[5577 := 2]"
    "length (vmem d 12) = 2"
  shows "vmem (launch (fullBlocksPerGrid 2) (kernUpdateVelNeighborSearchScattered 2 gridSideCount
            gridMinimum gridInverseCellWidth gridCellWidth 22 23 20 10 11 12) d) 12
         = [Vec3 0 0 0, Vec3 (- 1 / 100) 0 0]"
proof -
  let ?K = "kernUpdateVelNeighborSearchScattered 2 gridSideCount
            gridMinimum gridInverseCellWidth gridCellWidth 22 23 20 10 11 12"
  have l: "launch (fullBlocksPerGrid 2) ?K d = ?K 1 (?K 0 d)"
    by (simp add: launch_active [OF kernUpdateVelNeighborSearchScattered_idle] upt_0_2)
  have f: "vmem (?K 0 d) 10 = [Vec3 0 0 0, Vec3 1 0 0]" "vmem (?K 0 d) 11 = [Vec3 0 0 0, Vec3 0 0 0]"
    "imem (?K 0 d) 20 = [0, 1]"
    "imem (?K 0 d) 22 = (replicate (nat gridCellCount) (- 1))[5577 := 0]"
    "imem (?K 0 d) 23 = (replicate (nat gridCellCount) (- 1))[5577 := 2]"
    by (simp_all add: kernUpdateVelNeighborSearchScattered_frame assms)
  show ?thesis
    unfolding l scattered_thread_two_boids(2) [OF f] scattered_thread_two_boids(1) [OF assms(1-5)]
    using assms(6) by (rule list2_updates)
qed

lemma two_boids_coherent_velocity:
  fixes d :: device
  assumes "vmem d 10 = [Vec3 0 0 0, Vec3 1 0 0]" "vmem d 11 = [Vec3 0 0 0, Vec3 0 0 0]"
    "imem d 22 = (replicate (nat gridCellCount) (- 1))[5577 := 0]"
    "imem d 23 = (replicate (nat gridCellCount) (- 1))[5577 := 2]"
    "length (vmem d 12) = 2"
  shows "vmem (launch (fullBlocksPerGrid 2) (kernUpdateVelNeighborSearchCoherent 2 gridSideCount
            gridMinimum gridInverseCellWidth gridCellWidth 22 23 10 11 12) d) 12
         = [Vec3 0 0 0, Vec3 (- 1 / 100) 0 0]"
proof -
  let ?K = "kernUpdateVelNeighborSearchCoherent 2 gridSideCount
            gridMinimum gridInverseCellWidth gridCellWidth 22 23 10 11 12"
  have l: "launch (fullBlocksPerGrid 2) ?K d = ?K 1 (?K 0 d)"
    by (simp add: launch_active [OF kernUpdateVelNeighborSearchCoherent_idle] upt_0_2)
  have f: "vmem (?K 0 d) 10 = [Vec3 0 0 0, Vec3 1 0 0]" "vmem (?K 0 d) 11 = [Vec3 0 0 0, Vec3 0 0 0]"
    "imem (?K 0 d) 22 = (replicate (nat gridCellCount) (- 1))[5577 := 0]"
    "imem (?K 0 d) 23 = (replicate (nat gridCellCount) (- 1))[5577 := 2]"
    by (simp_all add: kernUpdateVelNeighborSearchCoherent_frame assms)
  show ?thesis
    unfolding l coherent_thread_two_boids(2) [OF f] coherent_thread_two_boids(1) [OF assms(1-4)]
    using assms(5) by (rule list2_updates)
qed

text \<open>The brute-force kernel on the same two particles sees the neighbour.\<close>

lemma two_boids_brute_force:
  "computeVelocityChange 2 0 [Vec3 0 0 0, Vec3 1 0 0] [Vec3 0 0 0, Vec3 0 0 0] = Vec3 (- 9 / 100) 0 0"
  "computeVelocityChange 2 1 [Vec3 0 0 0, Vec3 1 0 0] [Vec3 0 0 0, Vec3 0 0 0] = Vec3 (9 / 100) 0 0"
  by (simp_all add: computeVelocityChange_def kernUpdateVelocityRule1_def
        kernUpdateVelocityRule2_def kernUpdateVelocityRule3_def upt_0_2 Let_def vec_defs
        vlength_def rule1Distance_def rule2Distance_def rule3Distance_def
        rule1Scale_def rule2Scale_def rule3Scale_def maxSpeed_def)


lemma vmem_eqI:
  assumes "vmem e v = vmem d v" "\<And>a. a \<noteq> v \<Longrightarrow> vmem e a = vmem d a"
  shows "vmem e = vmem d"
proof
  fix a show "vmem e a = vmem d a" using assms by (cases "a = v") simp_all
qed

text \<open>The coherent pipeline on the two particles, up to the three sorts.\<close>

lemma two_boids_coherentGridSorted:
  defines "d \<equiv> coherentGridSorted (sort_via stable_perm) (sort_via stable_perm)
                  (sort_via stable_perm) two_boids"
  shows "vmem d = vmem (mem two_boids)" "imem d 20 = [0, 1]" "imem d 21 = [5577, 5577]"
    "imem d 22 = replicate (nat gridCellCount) (- 1)"
    "imem d 23 = replicate (nat gridCellCount) (- 1)"
proof -
  define d1 where "d1 = launch (fullBlocksPerGrid (nat gridCellCount))
     (kernResetIntBuffer (nat gridCellCount) 22 (- 1)) (mem two_boids)"
  define d2 where "d2 = launch (fullBlocksPerGrid (nat gridCellCount))
     (kernResetIntBuffer (nat gridCellCount) 23 (- 1)) d1"
  define d3 where "d3 = launch (fullBlocksPerGrid 2)
     (kernComputeIndices 2 gridSideCount gridMinimum gridInverseCellWidth 10 20 21) d2"
  define d4 where "d4 = cudaMemcpy_int 24 21 2 d3"
  define d5 where "d5 = cudaMemcpy_int 25 21 2 d4"
  define d6 where "d6 = sort_by_key_int (sort_via stable_perm) 21 2 20 d5"
  define d7 where "d7 = sort_by_key_vec (sort_via stable_perm) 24 2 10 d6"
  have d: "d = sort_by_key_vec (sort_via stable_perm) 25 2 11 d7"
    by (simp add: d_def coherentGridSorted_def two_boids_fields Let_def
          d1_def d2_def d3_def d4_def d5_def d6_def d7_def)
  have 1: "vmem d1 = vmem (mem two_boids)" "imem d1 22 = replicate (nat gridCellCount) (- 1)"
    "\<And>a. a \<noteq> 22 \<Longrightarrow> imem d1 a = imem (mem two_boids) a"
    unfolding d1_def by (simp_all add: launch_kernResetIntBuffer two_boids_fields)
  have 2: "vmem d2 = vmem (mem two_boids)" "imem d2 22 = replicate (nat gridCellCount) (- 1)"
    "imem d2 23 = replicate (nat gridCellCount) (- 1)"
    "\<And>a. a \<noteq> 22 \<Longrightarrow> a \<noteq> 23 \<Longrightarrow> imem d2 a = imem (mem two_boids) a"
    unfolding d2_def by (simp_all add: launch_kernResetIntBuffer 1 two_boids_fields)
  have 3: "vmem d3 = vmem (mem two_boids)" "imem d3 20 = [0, 1]" "imem d3 21 = [5577, 5577]"
    "imem d3 22 = replicate (nat gridCellCount) (- 1)"
    "imem d3 23 = replicate (nat gridCellCount) (- 1)"
    "imem d3 24 = [0, 0]" "imem d3 25 = [0, 0]"
    unfolding d3_def
    using two_boids_labelled [of d2] by (simp_all add: 2 two_boids_fields)
  have 5: "vmem d5 = vmem (mem two_boids)" "imem d5 20 = [0, 1]" "imem d5 21 = [5577, 5577]"
    "imem d5 22 = replicate (nat gridCellCount) (- 1)"
    "imem d5 23 = replicate (nat gridCellCount) (- 1)"
    "imem d5 24 = [5577, 5577]" "imem d5 25 = [5577, 5577]"
    unfolding d5_def d4_def by (simp_all add: cudaMemcpy_int_fields 3)
  have s6: "sort_via stable_perm (take 2 (imem d5 21)) (take 2 (imem d5 20))
         = ([5577, 5577], [0, 1])"
    by (simp add: 5 stable_sort_two_equal)
  have 6: "vmem d6 = vmem (mem two_boids)" "imem d6 20 = [0, 1]" "imem d6 21 = [5577, 5577]"
    "imem d6 22 = replicate (nat gridCellCount) (- 1)"
    "imem d6 23 = replicate (nat gridCellCount) (- 1)"
    "imem d6 24 = [5577, 5577]" "imem d6 25 = [5577, 5577]"
    unfolding d6_def
    by (simp_all add: sort_by_key_int_fields [where srt = "sort_via stable_perm" and keys = 21
          and vals = 20 and n = 2 and d = d5, OF s6] 5)
  have s7: "sort_via stable_perm (take 2 (imem d6 24)) (take 2 (vmem d6 10))
         = ([5577, 5577], [Vec3 0 0 0, Vec3 1 0 0])"
    by (simp add: 6 two_boids_fields stable_sort_two_equal)
  note f7 = sort_by_key_vec_fields [where srt = "sort_via stable_perm" and keys = 24
          and vals = 10 and n = 2 and d = d6, OF s7, folded d7_def]
  have 7: "vmem d7 = vmem (mem two_boids)" "imem d7 20 = [0, 1]" "imem d7 21 = [5577, 5577]"
    "imem d7 22 = replicate (nat gridCellCount) (- 1)"
    "imem d7 23 = replicate (nat gridCellCount) (- 1)"
    "imem d7 25 = [5577, 5577]"
  proof -
    show "vmem d7 = vmem (mem two_boids)"
      by (rule vmem_eqI [of _ 10]) (simp_all add: f7 6 two_boids_fields)
  qed (simp_all add: f7 6)
  have s8: "sort_via stable_perm (take 2 (imem d7 25)) (take 2 (vmem d7 11))
         = ([5577, 5577], [Vec3 0 0 0, Vec3 0 0 0])"
    by (simp add: 7 two_boids_fields stable_sort_two_equal)
  note f8 = sort_by_key_vec_fields [where srt = "sort_via stable_perm" and keys = 25
          and vals = 11 and n = 2 and d = d7, OF s8, folded d]
  show "vmem d = vmem (mem two_boids)"
    by (rule vmem_eqI [of _ 11]) (simp_all add: f8 7 two_boids_fields)
  show "imem d 20 = [0, 1]" "imem d 21 = [5577, 5577]"
    "imem d 22 = replicate (nat gridCellCount) (- 1)"
    "imem d 23 = replicate (nat gridCellCount) (- 1)"
    by (simp_all add: f8 7)
qed


text \<open>
  C3.  Two particles, at \<open>(0, 0, 0)\<close> and \<open>(1, 0, 0)\<close>, one unit apart and both in cell
  5577.  After the sort the cell has the range from 0 to 2: it was written this step and
  its end is above its start.  Cell 5577 is a candidate cell of both particles.  Yet both
  grid kernels store for either particle the value of a particle without neighbours
  (\<open>(0, 0, 0)\<close> and \<open>(-1/100, 0, 0)\<close>): the guard \<open>cellStart > 0\<close> passes over the cell
  whose start index is 0, so its particles are not fetched.
\<close>

theorem cell_at_start_zero_is_skipped:
  "imem (scatteredGridRanges (sort_via stable_perm) two_boids) 21 = [5577, 5577] \<and>
   imem (scatteredGridRanges (sort_via stable_perm) two_boids) 22 ! 5577 = 0 \<and>
   imem (scatteredGridRanges (sort_via stable_perm) two_boids) 23 ! 5577 = 2 \<and>
   neighbor_cell_vec 10 10 10 gridSideCount = [5070, 5071, 5092, 5093, 5554, 5555, 5576, 5577] \<and>
   vlength (vsub (Vec3 0 0 0) (Vec3 1 0 0)) = 1 \<and>
   vmem (launch (fullBlocksPerGrid 2)
           (kernUpdateVelNeighborSearchScattered 2 gridSideCount gridMinimum gridInverseCellWidth
              gridCellWidth 22 23 20 10 11 12)
           (scatteredGridRanges (sort_via stable_perm) two_boids)) 12
     = [Vec3 0 0 0, Vec3 (- 1 / 100) 0 0] \<and>
   vmem (launch (fullBlocksPerGrid 2)
           (kernUpdateVelNeighborSearchCoherent 2 gridSideCount gridMinimum gridInverseCellWidth
              gridCellWidth 22 23 10 11 12)
           (launch (fullBlocksPerGrid 2) (kernIdentifyCellStartEnd 2 21 22 23)
              (coherentGridSorted (sort_via stable_perm) (sort_via stable_perm)
                 (sort_via stable_perm) two_boids))) 12
     = [Vec3 0 0 0, Vec3 (- 1 / 100) 0 0]"
proof -
  note S = two_boids_scatteredGridRanges
  note C = two_boids_coherentGridSorted
  define c where "c = launch (fullBlocksPerGrid 2) (kernIdentifyCellStartEnd 2 21 22 23)
              (coherentGridSorted (sort_via stable_perm) (sort_via stable_perm)
                 (sort_via stable_perm) two_boids)"
  note R = two_boids_ranged [OF C(3,4,5), folded c_def]
  have 1: "imem (scatteredGridRanges (sort_via stable_perm) two_boids) 22 ! 5577 = 0"
    "imem (scatteredGridRanges (sort_via stable_perm) two_boids) 23 ! 5577 = 2"
    by (simp_all add: S cells_two_boids)
  have 2: "neighbor_cell_vec 10 10 10 gridSideCount
         = [5070, 5071, 5092, 5093, 5554, 5555, 5576, 5577]"
    by (simp add: grid_params candidate_cells_two_boids)
  have 3: "vlength (vsub (Vec3 0 0 0) (Vec3 1 0 0)) = 1"
    by (simp add: vlength_def vec_defs)
  have 4: "vmem (launch (fullBlocksPerGrid 2)
           (kernUpdateVelNeighborSearchScattered 2 gridSideCount gridMinimum gridInverseCellWidth
              gridCellWidth 22 23 20 10 11 12)
           (scatteredGridRanges (sort_via stable_perm) two_boids)) 12
     = [Vec3 0 0 0, Vec3 (- 1 / 100) 0 0]"
    by (rule two_boids_scattered_velocity) (simp_all add: S two_boids_fields)
  have 5: "vmem (launch (fullBlocksPerGrid 2)
           (kernUpdateVelNeighborSearchCoherent 2 gridSideCount gridMinimum gridInverseCellWidth
              gridCellWidth 22 23 10 11 12) c) 12
     = [Vec3 0 0 0, Vec3 (- 1 / 100) 0 0]"
    by (rule two_boids_coherent_velocity) (simp_all add: R C two_boids_fields)
  show ?thesis using S(3) 1 2 3 4 5 [unfolded c_def] by blast
qed

text \<open>
  C1.  The same two particles, one step of each strategy (the sorter being the stable
  one at every call).  The next velocities are \<open>(-9/100, 0, 0)\<close> and \<open>(9/100, 0, 0)\<close> after
  the brute-force step, and \<open>(0, 0, 0)\<close> and \<open>(-1/100, 0, 0)\<close> after the scattered and
  after the coherent step: the grid strategies miss the neighbour in the cell whose
  range starts at 0.
\<close>

theorem strategies_disagree_on_two_boids:
  "vmem (mem (stepSimulationNaive 1 two_boids)) (dev_vel1 (stepSimulationNaive 1 two_boids))
     = [Vec3 (- 9 / 100) 0 0, Vec3 (9 / 100) 0 0] \<and>
   vmem (mem (stepSimulationScatteredGrid (sort_via stable_perm) 1 two_boids))
        (dev_vel1 (stepSimulationScatteredGrid (sort_via stable_perm) 1 two_boids))
     = [Vec3 0 0 0, Vec3 (- 1 / 100) 0 0] \<and>
   vmem (mem (stepSimulationCoherentGrid (sort_via stable_perm) (sort_via stable_perm)
                (sort_via stable_perm) 1 two_boids))
        (dev_vel1 (stepSimulationCoherentGrid (sort_via stable_perm) (sort_via stable_perm)
                (sort_via stable_perm) 1 two_boids))
     = [Vec3 0 0 0, Vec3 (- 1 / 100) 0 0]"
proof -
  have ne: "(12::addr) \<noteq> 10" "(12::addr) \<noteq> 11" "(10::addr) \<noteq> 12" by simp_all
  have naive: "vmem (mem (stepSimulationNaive 1 two_boids)) (dev_vel1 (stepSimulationNaive 1 two_boids))
     = [Vec3 (- 9 / 100) 0 0, Vec3 (9 / 100) 0 0]"
    unfolding stepSimulationNaive_pointers two_boids_fields
      launch_kernUpdatePos(2) [OF ne(3) ne(1)]
    by (rule list2_eq)
       (simp_all add: launch_kernUpdateVelocityBruteForce [OF ne(1,2)] two_boids_fields
          two_boids_brute_force del: One_nat_def)
  note S = two_boids_scatteredGridRanges
  have scattered: "vmem (mem (stepSimulationScatteredGrid (sort_via stable_perm) 1 two_boids))
        (dev_vel1 (stepSimulationScatteredGrid (sort_via stable_perm) 1 two_boids))
     = [Vec3 0 0 0, Vec3 (- 1 / 100) 0 0]"
    unfolding stepSimulationScatteredGrid_def Let_def
    by (simp add: two_boids_fields launch_kernUpdatePos(2) [OF ne(3) ne(1)]
          two_boids_scattered_velocity S)
  note C = two_boids_coherentGridSorted
  define c where "c = launch (fullBlocksPerGrid 2) (kernIdentifyCellStartEnd 2 21 22 23)
              (coherentGridSorted (sort_via stable_perm) (sort_via stable_perm)
                 (sort_via stable_perm) two_boids)"
  note R = two_boids_ranged [OF C(3,4,5), folded c_def]
  have cv: "vmem (launch (fullBlocksPerGrid 2)
           (kernUpdateVelNeighborSearchCoherent 2 gridSideCount gridMinimum gridInverseCellWidth
              gridCellWidth 22 23 10 11 12) c) 12
     = [Vec3 0 0 0, Vec3 (- 1 / 100) 0 0]"
    by (rule two_boids_coherent_velocity) (simp_all add: R C two_boids_fields)
  have coherent: "vmem (mem (stepSimulationCoherentGrid (sort_via stable_perm)
                (sort_via stable_perm) (sort_via stable_perm) 1 two_boids))
        (dev_vel1 (stepSimulationCoherentGrid (sort_via stable_perm) (sort_via stable_perm)
                (sort_via stable_perm) 1 two_boids))
     = [Vec3 0 0 0, Vec3 (- 1 / 100) 0 0]"
    unfolding stepSimulationCoherentGrid_def Let_def
    by (simp add: two_boids_fields launch_kernUpdatePos(2) [OF ne(3) ne(1)] cv [unfolded c_def])
  show ?thesis using naive scattered coherent by blast
qed

subsection \<open>Sorters that move by a permutation\<close>






subsection \<open>The three sorts of the coherent step\<close>








lemma two_boids_moving_fields:
  "numObjects two_boids_moving = 2" "dev_pos two_boids_moving = 10" "dev_vel1 two_boids_moving = 11"
  "dev_particleArrayIndices two_boids_moving = 20" "dev_particleGridIndices two_boids_moving = 21"
  "vmem (mem two_boids_moving) 10 = [Vec3 0 0 0, Vec3 1 0 0]"
  "vmem (mem two_boids_moving) 11 = [Vec3 1 0 0, Vec3 0 1 0]"
  by (simp_all add: two_boids_moving_def two_boids_def)




end
